theory Spec2Isabelle
  imports Complex_Main
begin

chapter \<open>The safety-gated decomposition harness\<close>

text \<open>
  The safety policy (filters.py), the model clients (clients.py), the two orchestrators
  (decompose.py and pipeline.py), the run log (run_logger.py) and the moderation helper of
  the dataset generator (ds/safety.py), as functions over an explicit environment, followed
  by what holds of them.
\<close>

section \<open>Python strings\<close>

text \<open>
  Text is a list of characters with codes 0 to 255, read as the Unicode code points
  U+0000 to U+00FF; a code point above these has no place in the type. The character
  classes below are the ones Python's \<^verbatim>\<open>str\<close> methods use on these code points:
  \<^verbatim>\<open>lower\<close>, \<^verbatim>\<open>strip\<close>, \<^verbatim>\<open>split\<close>, \<^verbatim>\<open>splitlines\<close>, \<^verbatim>\<open>isdigit\<close>, the substring
  test \<^verbatim>\<open>in\<close> and \<^verbatim>\<open>join\<close>.
\<close>

text \<open>
  \<^verbatim>\<open>lower\<close> on one character. The letters A to Z go to a to z; they lie among the
  codes 0x40 to 0x5F (bit 7 clear, bit 6 set, bit 5 clear), so the table is consulted for
  these alone. The codes 0xC0 to 0xDE other than the multiplication sign 0xD7 are
  capital letters too, and lower-casing sets their bit 5. Every other character stays.
\<close>

fun py_lower_char :: "char \<Rightarrow> char" where
  "py_lower_char (Char b0 b1 b2 b3 b4 b5 b6 b7) =
     (if b5 then Char b0 b1 b2 b3 b4 b5 b6 b7
      else if b7 then
        (if b6 then
           (if Char b0 b1 b2 b3 b4 b5 b6 b7 = CHR 0xD7 then Char b0 b1 b2 b3 b4 b5 b6 b7
            else if Char b0 b1 b2 b3 b4 b5 b6 b7 = CHR 0xDF then Char b0 b1 b2 b3 b4 b5 b6 b7
            else Char b0 b1 b2 b3 b4 True b6 b7)
         else Char b0 b1 b2 b3 b4 b5 b6 b7)
      else if b6 then
        (case map_of (zip ''ABCDEFGHIJKLMNOPQRSTUVWXYZ'' ''abcdefghijklmnopqrstuvwxyz'')
                (Char b0 b1 b2 b3 b4 b5 b6 b7) of
           None \<Rightarrow> Char b0 b1 b2 b3 b4 b5 b6 b7 | Some d \<Rightarrow> d)
      else Char b0 b1 b2 b3 b4 b5 b6 b7)"

definition py_lower :: "string \<Rightarrow> string" where
  "py_lower s = map py_lower_char s"

text \<open>The characters \<^verbatim>\<open>isspace\<close> accepts, which \<^verbatim>\<open>strip()\<close> removes and at which
  \<^verbatim>\<open>split()\<close> splits; the last two are NEL and the no-break space.\<close>

definition py_whitespace :: "char list" where
  "py_whitespace =
     [CHR 0x20, CHR 0x09, CHR 0x0A, CHR 0x0B, CHR 0x0C, CHR 0x0D,
      CHR 0x1C, CHR 0x1D, CHR 0x1E, CHR 0x1F, CHR 0x85, CHR 0xA0]"

definition py_isspace :: "char \<Rightarrow> bool" where
  "py_isspace c = (c \<in> set py_whitespace)"

text \<open>\<^verbatim>\<open>isdigit\<close>: the ten digits and the superscripts two, three and one.\<close>

definition py_isdigit :: "char \<Rightarrow> bool" where
  "py_isdigit c = (c \<in> set (''0123456789'' @ [CHR 0xB2, CHR 0xB3, CHR 0xB9]))"

text \<open>\<^verbatim>\<open>s.lstrip(chars)\<close>, \<^verbatim>\<open>s.rstrip(chars)\<close>, \<^verbatim>\<open>s.strip(chars)\<close> and \<^verbatim>\<open>s.strip()\<close>.\<close>

definition py_lstrip_chars :: "char list \<Rightarrow> string \<Rightarrow> string" where
  "py_lstrip_chars cs s = dropWhile (\<lambda>c. c \<in> set cs) s"

definition py_rstrip_chars :: "char list \<Rightarrow> string \<Rightarrow> string" where
  "py_rstrip_chars cs s = rev (dropWhile (\<lambda>c. c \<in> set cs) (rev s))"

definition py_strip_chars :: "char list \<Rightarrow> string \<Rightarrow> string" where
  "py_strip_chars cs s = py_rstrip_chars cs (py_lstrip_chars cs s)"

definition py_strip :: "string \<Rightarrow> string" where
  "py_strip s = py_strip_chars py_whitespace s"

text \<open>\<^verbatim>\<open>p in t\<close> on strings: \<open>p\<close> occurs in \<open>t\<close> as a contiguous block.\<close>

fun starts_with :: "string \<Rightarrow> string \<Rightarrow> bool" where
  "starts_with [] t = True"
| "starts_with (a # p) [] = False"
| "starts_with (a # p) (c # cs) = (if a = c then starts_with p cs else False)"

fun py_in :: "string \<Rightarrow> string \<Rightarrow> bool" where
  "py_in p [] = (p = [])"
| "py_in p (c # cs) = (if starts_with p (c # cs) then True else py_in p cs)"

text \<open>\<^verbatim>\<open>sep.join(xs)\<close>.\<close>

fun py_join :: "string \<Rightarrow> string list \<Rightarrow> string" where
  "py_join sep [] = []"
| "py_join sep [x] = x"
| "py_join sep (x # y # ys) = x @ sep @ py_join sep (y # ys)"

text \<open>\<^verbatim>\<open>s.split(" ")\<close>: split at every single space, empty pieces kept.\<close>

fun py_split_char :: "char \<Rightarrow> string \<Rightarrow> string list" where
  "py_split_char d [] = [[]]"
| "py_split_char d (c # cs) =
     (if c = d then [] # py_split_char d cs
      else (case py_split_char d cs of
              [] \<Rightarrow> [[c]]
            | w # ws \<Rightarrow> (c # w) # ws))"

text \<open>\<^verbatim>\<open>len(s.split())\<close>: the number of maximal runs of characters that are not whitespace.\<close>

fun count_words :: "bool \<Rightarrow> string \<Rightarrow> nat" where
  "count_words inside [] = 0"
| "count_words inside (c # cs) =
     (if py_isspace c then count_words False cs
      else (if inside then 0 else 1) + count_words True cs)"

text \<open>
  \<^verbatim>\<open>s.splitlines()\<close>: the line boundaries are LF, CR, CR LF, VT, FF, FS, GS, RS and
  NEL; the boundary itself is dropped and a final boundary opens no further line.
\<close>

definition py_linebreaks :: "char list" where
  "py_linebreaks =
     [CHR 0x0A, CHR 0x0B, CHR 0x0C, CHR 0x0D, CHR 0x1C, CHR 0x1D, CHR 0x1E, CHR 0x85]"

fun splitlines_from :: "string \<Rightarrow> string \<Rightarrow> string list" where
  "splitlines_from cur [] = (if cur = [] then [] else [rev cur])"
| "splitlines_from cur [c] =
     (if c \<in> set py_linebreaks then [rev cur] else [rev (c # cur)])"
| "splitlines_from cur (c # d # cs) =
     (if c = CHR 0x0D \<and> d = CHR 0x0A then rev cur # splitlines_from [] cs
      else if c \<in> set py_linebreaks then rev cur # splitlines_from [] (d # cs)
      else splitlines_from (c # cur) (d # cs))"

definition py_splitlines :: "string \<Rightarrow> string list" where
  "py_splitlines s = splitlines_from [] s"

text \<open>\<^verbatim>\<open>s.split(sep, 1)[-1]\<close>: what follows the first occurrence of \<open>sep\<close>, or all of
  \<open>s\<close> when \<open>sep\<close> does not occur.\<close>

fun after_first :: "string \<Rightarrow> string \<Rightarrow> string option" where
  "after_first sep [] = (if sep = [] then Some [] else None)"
| "after_first sep (c # cs) =
     (if take (length sep) (c # cs) = sep then Some (drop (length sep) (c # cs))
      else after_first sep cs)"

definition split_once_last :: "string \<Rightarrow> string \<Rightarrow> string" where
  "split_once_last sep s = (case after_first sep s of None \<Rightarrow> s | Some r \<Rightarrow> r)"

text \<open>\<^verbatim>\<open>s.replace("\n", " ")\<close>.\<close>

definition replace_newlines :: "string \<Rightarrow> string" where
  "replace_newlines s = map (\<lambda>c. if c = CHR 0x0A then CHR 0x20 else c) s"

section \<open>Errors, log lines and the environment\<close>

text \<open>
  Every exception of the source is a value. \<open>SafeContentError\<close> carries its reasons;
  \<open>RetryError\<close> is the one tenacity raises when the attempts are used up, carrying the last
  failure; \<open>OtherError\<close> is whatever an injected callable or an external service raises.
\<close>

datatype error =
    SafeContentError "string list"
  | UnsafeOutputError
  | RuntimeError string
  | ValueError string
  | IndexError
  | OSError
  | RetryError error
  | OtherError string

record safety_event =
  ev_timestamp :: string
  ev_context :: string
  ev_reason :: "string list"
  ev_text_preview :: string

record SubtaskLog =
  subtask :: string
  st_output :: string
  redacted :: bool
  prompt_tokens :: nat
  completion_tokens :: nat

record RunLog =
  run_id :: string
  timestamp :: string
  strategy :: string
  model_a :: string
  model_b :: string
  prompt :: string
  blocked_subtasks :: "string list"
  subtasks :: "SubtaskLog list"

text \<open>One line of a JSONL file: the object that \<^verbatim>\<open>json.dumps\<close> serialises.\<close>

datatype line = SafetyEventLine safety_event | RunLogLine RunLog

text \<open>An invocation of a model client, as a call-counting stub would see it.\<close>

datatype invocation =
    Generate string string
  | Call string string
  | ProposeSubtasks string string
  | SolveSubtask string string

text \<open>
  The environment: the files by path, whether a directory can be created and a file
  opened and written, the clock's reading, the next random UUID, the time a model call
  takes, and the trace of client invocations.
\<close>

record world =
  files :: "string \<Rightarrow> line list"
  mkdir_ok :: "string \<Rightarrow> bool"
  write_ok :: "string \<Rightarrow> bool"
  clock_iso :: string
  uuid4 :: string
  elapsed :: "string \<Rightarrow> rat"
  calls :: "invocation list"

section \<open>filters.py\<close>

record SafetyConfig =
  blocklist :: "string list"
  patterns :: "string list"
  log_path :: string

definition bslash :: char where
  "bslash = CHR 0x5C"

definition default_blocklist :: "string list" where
  "default_blocklist =
     [''kill'', ''murder'', ''terror'', ''bomb'', ''weapon'', ''shoot'', ''suicide'',
      ''hack'', ''hacking'', ''exploit'', ''malware'', ''ransomware'', ''phishing'',
      ''keylogger'', ''ddos'',
      ''drug manufacturing'', ''counterfeit'', ''forgery'',
      ''porn'', ''nude'', ''explicit'', ''sex'',
      ''child abuse'', ''cp'', ''minor sexual'',
      ''self harm'', ''self-harm'',
      ''gore'', ''torture'']"

definition pattern_weapon :: string where
  "pattern_weapon =
     bslash # ''bhow to (build|make|buy) (a )?(weapon|bomb)'' @ [bslash, CHR ''b'']"

definition pattern_bypass :: string where
  "pattern_bypass =
     bslash # ''b(bypass|break|crack) (security|password|drm)'' @ [bslash, CHR ''b'']"

definition pattern_drugs :: string where
  "pattern_drugs =
     bslash # ''bmanufactur(e|ing) (drugs|narcotics)'' @ [bslash, CHR ''b'']"

definition default_SafetyConfig :: SafetyConfig where
  "default_SafetyConfig =
     \<lparr> blocklist = default_blocklist,
       patterns = [pattern_weapon, pattern_bypass, pattern_drugs],
       log_path = ''logs/safety_events.jsonl'' \<rparr>"

text \<open>
  \<^verbatim>\<open>re.search(pat, t)\<close> belongs to Python's library, so the regular-expression engine is
  a parameter \<open>re\<close> of everything below: \<open>re pat t\<close> is \<open>None\<close> where \<^verbatim>\<open>re.error\<close> is
  raised and \<open>Some b\<close> where the search answers \<open>b\<close>.
\<close>

type_synonym regex_engine = "string \<Rightarrow> string \<Rightarrow> bool option"

text \<open>
  The engine on the three default patterns. Each of them is \<^verbatim>\<open>\b\<close>, a finite choice of
  literal texts, \<^verbatim>\<open>\b\<close>; the literals start and end with a letter, so the pattern is found
  where a literal occurs with no word character right before it (\<open>before\<close> is the
  character before the position, if there is one) and none right after.
  Any other pattern is outside this engine and answers \<open>None\<close>.
\<close>

text \<open>
  The word characters of \<^verbatim>\<open>\w\<close> and \<^verbatim>\<open>\b\<close> on a \<^verbatim>\<open>str\<close> pattern: the underscore and
  what \<^verbatim>\<open>isalnum\<close> accepts. Above 0x7F these are the two ordinal indicators, the micro
  sign, the superscripts and fractions, and the codes 0xC0 to 0xFF (bits 6 and 7 set)
  other than the multiplication and division signs.
\<close>

fun in_top_quarter :: "char \<Rightarrow> bool" where
  "in_top_quarter (Char b0 b1 b2 b3 b4 b5 b6 b7) = (if b7 then b6 else False)"

definition is_word_char :: "char \<Rightarrow> bool" where
  "is_word_char c =
     (if c \<in> set ''abcdefghijklmnopqrstuvwxyzABCDEFGHIJKLMNOPQRSTUVWXYZ0123456789_'' then True
      else if in_top_quarter c then c \<notin> set [CHR 0xD7, CHR 0xF7]
      else c \<in> set [CHR 0xAA, CHR 0xB2, CHR 0xB3, CHR 0xB5, CHR 0xB9, CHR 0xBA,
                      CHR 0xBC, CHR 0xBD, CHR 0xBE])"

fun literal_here :: "string \<Rightarrow> string \<Rightarrow> bool" where
  "literal_here [] [] = True"
| "literal_here [] (d # cs) = (\<not> is_word_char d)"
| "literal_here (a # l) [] = False"
| "literal_here (a # l) (c # cs) = (if a = c then literal_here l cs else False)"

fun bounded_literal_search :: "char option \<Rightarrow> string list \<Rightarrow> string \<Rightarrow> bool" where
  "bounded_literal_search before lits [] = False"
| "bounded_literal_search before lits (c # cs) =
     (if list_ex (\<lambda>l. literal_here l (c # cs)) lits
      then (case before of
              None \<Rightarrow> True
            | Some b \<Rightarrow> if is_word_char b then bounded_literal_search (Some c) lits cs else True)
      else bounded_literal_search (Some c) lits cs)"

definition literals_weapon :: "string list" where
  "literals_weapon =
     concat (map (\<lambda>v. concat (map (\<lambda>a. map (\<lambda>n. ''how to '' @ v @ '' '' @ a @ n)
                                            [''weapon'', ''bomb''])
                                  [''a '', '''']))
                 [''build'', ''make'', ''buy''])"

definition literals_bypass :: "string list" where
  "literals_bypass =
     concat (map (\<lambda>v. map (\<lambda>n. v @ '' '' @ n) [''security'', ''password'', ''drm''])
                 [''bypass'', ''break'', ''crack''])"

definition literals_drugs :: "string list" where
  "literals_drugs =
     concat (map (\<lambda>v. map (\<lambda>n. ''manufactur'' @ v @ '' '' @ n) [''drugs'', ''narcotics''])
                 [''e'', ''ing''])"

definition default_re_search :: regex_engine where
  "default_re_search pat t =
     (if pat = pattern_weapon then Some (bounded_literal_search None literals_weapon t)
      else if pat = pattern_bypass then Some (bounded_literal_search None literals_bypass t)
      else if pat = pattern_drugs then Some (bounded_literal_search None literals_drugs t)
      else None)"

text \<open>\<^verbatim>\<open>_log_safety_event\<close>: the append is tried and any failure of it is dropped.\<close>

definition log_safety_event :: "SafetyConfig \<Rightarrow> safety_event \<Rightarrow> world \<Rightarrow> world" where
  "log_safety_event config event w =
     (if mkdir_ok w (log_path config) \<and> write_ok w (log_path config)
      then w\<lparr>files := (files w)(log_path config :=
                 files w (log_path config) @ [SafetyEventLine event])\<rparr>
      else w)"

definition classifier_placeholder :: "string \<Rightarrow> string \<times> string" where
  "classifier_placeholder text = (''safe'', ''benign'')"

definition repr_classification :: "string \<times> string \<Rightarrow> string" where
  "repr_classification cls =
     ''{'' @ [CHR 0x27] @ ''label'' @ [CHR 0x27] @ '': '' @ [CHR 0x27] @ fst cls @ [CHR 0x27]
     @ '', '' @ [CHR 0x27] @ ''category'' @ [CHR 0x27] @ '': '' @ [CHR 0x27] @ snd cls
     @ [CHR 0x27] @ ''}''"

text \<open>The reasons \<^verbatim>\<open>is_safe_text\<close> collects for a text that is not empty.\<close>

definition collect_reasons :: "regex_engine \<Rightarrow> SafetyConfig \<Rightarrow> string \<Rightarrow> string list" where
  "collect_reasons re config text =
     (let t = py_lower text;
          hard =
            map (\<lambda>term. ''blocklist:'' @ term)
              (filter (\<lambda>term. term \<noteq> [] \<and> py_in (py_lower term) t) (blocklist config))
            @ map (\<lambda>pat. ''pattern:'' @ pat)
                (filter (\<lambda>pat. re pat t = Some True) (patterns config))
      in if hard = []
         then (let cls = classifier_placeholder text
               in if fst cls \<notin> {''safe'', ''benign''}
                  then [''classifier:'' @ repr_classification cls] else [])
         else hard)"

definition is_safe_text ::
  "regex_engine \<Rightarrow> SafetyConfig option \<Rightarrow> string \<Rightarrow> string \<Rightarrow> world \<Rightarrow> (error + bool) \<times> world"
where
  "is_safe_text re config context text w =
     (let cfg = (case config of None \<Rightarrow> default_SafetyConfig | Some c \<Rightarrow> c)
      in if text = [] then (Inr True, w)
         else (let reasons = collect_reasons re cfg text
               in if reasons \<noteq> []
                  then (Inl (SafeContentError reasons),
                        log_safety_event cfg
                          \<lparr> ev_timestamp = clock_iso w, ev_context = context,
                            ev_reason = reasons, ev_text_preview = take 120 text \<rparr> w)
                  else (Inr True, w)))"

text \<open>
  \<^verbatim>\<open>safe_text_ok\<close>: False instead of the exception. \<^verbatim>\<open>is_safe_text\<close> raises nothing
  but \<open>SafeContentError\<close>, so every raised value is the one the handler catches.
\<close>

definition safe_text_ok :: "regex_engine \<Rightarrow> SafetyConfig option \<Rightarrow> string \<Rightarrow> world \<Rightarrow> bool \<times> world"
where
  "safe_text_ok re config text w =
     (case is_safe_text re config [] text w of
        (Inr _, w') \<Rightarrow> (True, w')
      | (Inl _, w') \<Rightarrow> (False, w'))"

text \<open>
  Whether the policy refuses a text: a text that is not empty and for which a reason is
  collected. The verdict depends on the text, the configuration and the engine only.
\<close>

definition resolve_config :: "SafetyConfig option \<Rightarrow> SafetyConfig" where
  "resolve_config config = (case config of None \<Rightarrow> default_SafetyConfig | Some c \<Rightarrow> c)"

definition text_denied :: "regex_engine \<Rightarrow> SafetyConfig option \<Rightarrow> string \<Rightarrow> bool" where
  "text_denied re config text =
     (text \<noteq> [] \<and> collect_reasons re (resolve_config config) text \<noteq> [])"

section \<open>clients.py\<close>

definition estimate_tokens :: "string \<Rightarrow> nat" where
  "estimate_tokens text =
     (if text = [] then 0 else max (length text div 4) (count_words False text))"

text \<open>
  \<^verbatim>\<open>ModelClientProtocol\<close>: a name and a \<^verbatim>\<open>call\<close>, which may raise. \<open>invoke_call\<close> is
  the call as the environment sees it: the result, and one more entry in the trace.
\<close>

record ModelClientProtocol =
  proto_name :: string
  call :: "string \<Rightarrow> error + string"

definition invoke_call :: "ModelClientProtocol \<Rightarrow> string \<Rightarrow> world \<Rightarrow> (error + string) \<times> world" where
  "invoke_call c p w = (call c p, w\<lparr>calls := calls w @ [Call (proto_name c) p]\<rparr>)"

definition ModelAClient :: ModelClientProtocol where
  "ModelAClient =
     \<lparr> proto_name = ''ModelA'',
       call = (\<lambda>p. Inr (''Processed safely by '' @ ''ModelA'' @ '': '' @ take 200 (py_strip p))) \<rparr>"

definition ModelBClient_suggestions :: "string \<Rightarrow> string list" where
  "ModelBClient_suggestions p =
     (let base = py_lower p;
          s1 = (if py_in ''summar'' base
                then [''Extract key points'', ''Draft concise summary'', ''Review for clarity'']
                else []);
          s2 = s1 @ (if py_in ''analy'' base \<or> py_in ''classif'' base
                then [''Define evaluation criteria'', ''Collect safe examples'',
                      ''Run analysis and aggregate findings'']
                else [])
      in if s2 = []
         then [''Outline safe subtasks'', ''Execute each subtask'', ''Synthesize final answer'']
         else s2)"

definition ModelBClient :: ModelClientProtocol where
  "ModelBClient =
     \<lparr> proto_name = ''ModelB'',
       call = (\<lambda>p. Inr (py_join [CHR 0x0A] (map (\<lambda>s. ''- '' @ s) (ModelBClient_suggestions p)))) \<rparr>"

record ModelClient =
  name :: string
  api_generate_fn :: "(string \<Rightarrow> int \<Rightarrow> rat \<Rightarrow> error + string) option"
  mock_mode :: bool
  last_tokens_used :: nat
  last_latency_sec :: rat

definition mock_generate :: "ModelClient \<Rightarrow> string \<Rightarrow> int \<Rightarrow> rat \<Rightarrow> string" where
  "mock_generate c p max_tokens temperature =
     (let header = ''[MOCK:'' @ name c @ '']'';
          body = replace_newlines (py_strip p);
          max_chars = max 0 (max_tokens * 4);
          cut = (if max_chars \<noteq> 0 then take (nat max_chars) body else body);
          content = (if cut \<noteq> [] then cut else ''(empty prompt)'')
      in header @ '' '' @ content)"

text \<open>
  \<^verbatim>\<open>generate\<close>: the telemetry fields are written once an output exists, also when the
  output is then refused; a failure to produce an output leaves them as they were.
\<close>

definition generate ::
  "regex_engine \<Rightarrow> ModelClient \<Rightarrow> string \<Rightarrow> int \<Rightarrow> rat \<Rightarrow> world
     \<Rightarrow> (error + string) \<times> ModelClient \<times> world"
where
  "generate re c p max_tokens temperature w =
     (let w1 = w\<lparr>calls := calls w @ [Generate (name c) p]\<rparr>;
          produced =
            (if mock_mode c then Inr (mock_generate c p max_tokens temperature)
             else (case api_generate_fn c of
                     None \<Rightarrow> Inl (RuntimeError ''api_generate_fn is not set and mock_mode is False'')
                   | Some f \<Rightarrow> f p max_tokens temperature))
      in case produced of
           Inl e \<Rightarrow> (Inl e, c, w1)
         | Inr out \<Rightarrow>
             (let c' = c\<lparr>last_latency_sec := max 0 (elapsed w p),
                         last_tokens_used := estimate_tokens out\<rparr>
              in case is_safe_text re None (''generate:'' @ name c) out w1 of
                   (Inl (SafeContentError _), w2) \<Rightarrow> (Inl UnsafeOutputError, c', w2)
                 | (Inl e, w2) \<Rightarrow> (Inl e, c', w2)
                 | (Inr _, w2) \<Rightarrow> (Inr out, c', w2)))"

text \<open>The bullet parser of \<^verbatim>\<open>propose_subtasks\<close>: what one stripped line contributes.\<close>

definition clean_line :: "string \<Rightarrow> string option" where
  "clean_line l =
     (case l of
        [] \<Rightarrow> None
      | c # _ \<Rightarrow>
          (let cleaned =
                 (if c \<in> set ''-*'' then py_strip (py_lstrip_chars [CHR ''-'', CHR ''*'', CHR 0x20, CHR 0x09] l)
                  else if py_isdigit c then split_once_last ''. '' l else l)
           in if cleaned \<noteq> [] then Some cleaned else None))"

definition parse_bullets :: "string \<Rightarrow> string list" where
  "parse_bullets text = List.map_filter clean_line (map py_strip (py_splitlines text))"

definition mock_items :: "string \<Rightarrow> string list" where
  "mock_items task_prompt =
     (let base = take 4 (py_split_char (CHR 0x20) (py_strip task_prompt));
          joined = py_join '' '' base;
          topic = (if joined \<noteq> [] then joined else ''task'')
      in [''Outline approach for '' @ topic,
          ''Execute key steps for '' @ topic,
          ''Summarize results for '' @ topic])"

text \<open>
  The loop "Safety and length filtering" of \<^verbatim>\<open>propose_subtasks\<close>, with \<open>safe_items\<close>
  as the accumulator. \<^verbatim>\<open>if not is_safe_text(it): continue\<close> is written as the source
  has it: the call may raise, and otherwise its value is tested.
\<close>

fun filter_items ::
  "regex_engine \<Rightarrow> int \<Rightarrow> string list \<Rightarrow> string list \<Rightarrow> world \<Rightarrow> (error + string list) \<times> world"
where
  "filter_items re max_items [] safe_items w = (Inr safe_items, w)"
| "filter_items re max_items (it0 # rest) safe_items w =
     (let it = py_strip it0
      in if it = [] then filter_items re max_items rest safe_items w
         else (case is_safe_text re None [] it w of
                 (Inl e, w') \<Rightarrow> (Inl e, w')
               | (Inr ok, w') \<Rightarrow>
                   if \<not> ok then filter_items re max_items rest safe_items w'
                   else (let it' = (if length it > 200 then take 200 it else it);
                             safe_items' = safe_items @ [it']
                         in if int (length safe_items') \<ge> max_items then (Inr safe_items', w')
                            else filter_items re max_items rest safe_items' w')))"

definition propose_instr :: "string \<Rightarrow> string" where
  "propose_instr task_prompt =
     ''Propose 3-6 SAFE, high-level, benign subtasks as short bullets. ''
     @ ''No sensitive, harmful, or dangerous content. Return only the bullets.''
     @ [CHR 0x0A] @ ''TASK: '' @ task_prompt"

definition propose_subtasks ::
  "regex_engine \<Rightarrow> ModelClient \<Rightarrow> string \<Rightarrow> int \<Rightarrow> world
     \<Rightarrow> (error + string list) \<times> ModelClient \<times> world"
where
  "propose_subtasks re c task_prompt max_items w =
     (let w0 = w\<lparr>calls := calls w @ [ProposeSubtasks (name c) task_prompt]\<rparr>
      in case safe_text_ok re None task_prompt w0 of
           (False, w1) \<Rightarrow> (Inr [], c, w1)
         | (True, w1) \<Rightarrow>
             if mock_mode c
             then (case filter_items re max_items (mock_items task_prompt) [] w1 of
                     (r, w2) \<Rightarrow> (r, c, w2))
             else (case generate re c (propose_instr task_prompt) 256 (2 / 10) w1 of
                     (Inl e, c', w2) \<Rightarrow> (Inl e, c', w2)
                   | (Inr text, c', w2) \<Rightarrow>
                       (case filter_items re max_items (parse_bullets text) [] w2 of
                          (r, w3) \<Rightarrow> (r, c', w3))))"

definition solve_instr :: "string \<Rightarrow> string" where
  "solve_instr subtask_prompt =
     ''Safely and concisely complete the following benign subtask. ''
     @ ''Avoid any sensitive, harmful, or dangerous content. ''
     @ ''Focus on generic, constructive guidance.''
     @ [CHR 0x0A] @ ''SUBTASK: '' @ subtask_prompt"

definition solve_subtask ::
  "regex_engine \<Rightarrow> ModelClient \<Rightarrow> string \<Rightarrow> int \<Rightarrow> rat \<Rightarrow> world
     \<Rightarrow> (error + string) \<times> ModelClient \<times> world"
where
  "solve_subtask re c subtask_prompt max_tokens temperature w =
     (let w0 = w\<lparr>calls := calls w @ [SolveSubtask (name c) subtask_prompt]\<rparr>
      in case safe_text_ok re None subtask_prompt w0 of
           (False, w1) \<Rightarrow> (Inl (SafeContentError []), c, w1)
         | (True, w1) \<Rightarrow>
             if mock_mode c
             then (Inr (''[MOCK_SOLVED:'' @ name c @ ''] ''
                        @ take 180 (replace_newlines (py_strip subtask_prompt))), c, w1)
             else generate re c (solve_instr subtask_prompt) max_tokens temperature w1)"

section \<open>decompose.py\<close>

definition REDACTED :: string where
  "REDACTED = ''[REDACTED for safety]''"

definition safe_aggregator :: "regex_engine \<Rightarrow> string list \<Rightarrow> world \<Rightarrow> (string \<times> bool) \<times> world" where
  "safe_aggregator re sols w =
     (let text = py_join [CHR 0x0A, CHR 0x0A] sols
      in case safe_text_ok re None text w of
           (False, w') \<Rightarrow> ((REDACTED, False), w')
         | (True, w') \<Rightarrow> ((text, True), w'))"

text \<open>
  The \<^verbatim>\<open>logs\<close> dictionary of \<^verbatim>\<open>automated_decompose\<close>; a key that may be absent is an
  option. \<^verbatim>\<open>latency_sec\<close> is the two lists \<open>latency_weak\<close> and \<open>latency_strong\<close>.
\<close>

record decompose_logs =
  log_blocked_subtasks :: "string list"
  subtask_token_estimates :: "nat list"
  solution_token_estimates :: "nat list"
  latency_weak :: "rat list"
  latency_strong :: "rat list"
  log_blocked :: "bool option"
  log_redacted :: "bool option"
  final_answer_preview_chars :: "string option"

record decompose_result =
  res_subtasks :: "string list"
  solutions :: "string list"
  success :: bool
  logs :: decompose_logs

definition initial_logs :: decompose_logs where
  "initial_logs =
     \<lparr> log_blocked_subtasks = [], subtask_token_estimates = [],
       solution_token_estimates = [], latency_weak = [], latency_strong = [],
       log_blocked = None, log_redacted = None, final_answer_preview_chars = None \<rparr>"

text \<open>The loop over the proposed subtasks that fills \<^verbatim>\<open>safe_subtasks\<close>.\<close>

fun gate_subtasks ::
  "regex_engine \<Rightarrow> string list \<Rightarrow> string list \<Rightarrow> decompose_logs \<Rightarrow> world
     \<Rightarrow> string list \<times> decompose_logs \<times> world"
where
  "gate_subtasks re [] safe_subtasks lg w = (safe_subtasks, lg, w)"
| "gate_subtasks re (st # rest) safe_subtasks lg w =
     (case safe_text_ok re None st w of
        (False, w') \<Rightarrow>
          gate_subtasks re rest safe_subtasks
            (lg\<lparr>log_blocked_subtasks := log_blocked_subtasks lg @ [st]\<rparr>) w'
      | (True, w') \<Rightarrow>
          gate_subtasks re rest (safe_subtasks @ [st])
            (lg\<lparr>subtask_token_estimates := subtask_token_estimates lg @ [estimate_tokens st]\<rparr>) w')"

text \<open>
  One pass of the dispatch loop, in three parts as the source has them. The state is the
  solutions so far, the logs, the strong client and the environment.
\<close>

record dispatch_state =
  ds_solutions :: "string list"
  ds_logs :: decompose_logs
  ds_strong :: ModelClient
  ds_world :: world

definition setdefault_redacted :: "decompose_logs \<Rightarrow> decompose_logs" where
  "setdefault_redacted lg =
     (case log_redacted lg of None \<Rightarrow> lg\<lparr>log_redacted := Some True\<rparr> | Some _ \<Rightarrow> lg)"

definition redact :: "dispatch_state \<Rightarrow> dispatch_state" where
  "redact s = s\<lparr>ds_logs := setdefault_redacted (ds_logs s),
               ds_solutions := ds_solutions s @ [REDACTED]\<rparr>"

text \<open>\<^verbatim>\<open>except (UnsafeOutputError, SafeContentError)\<close>: these two are handled, any other
  exception stays pending.\<close>

definition dispatch_except :: "error \<Rightarrow> dispatch_state \<Rightarrow> error option \<times> dispatch_state" where
  "dispatch_except e s =
     (case e of
        UnsafeOutputError \<Rightarrow> (None, redact s)
      | SafeContentError _ \<Rightarrow> (None, redact s)
      | _ \<Rightarrow> (Some e, s))"

text \<open>The \<^verbatim>\<open>try\<close> body with its \<^verbatim>\<open>except\<close> clause.\<close>

definition dispatch_try ::
  "regex_engine \<Rightarrow> string \<Rightarrow> dispatch_state \<Rightarrow> error option \<times> dispatch_state"
where
  "dispatch_try re st s =
     (case solve_subtask re (ds_strong s) st 256 (2 / 10) (ds_world s) of
        (Inl e, c', w') \<Rightarrow> dispatch_except e (s\<lparr>ds_strong := c', ds_world := w'\<rparr>)
      | (Inr out, c', w') \<Rightarrow>
          (case is_safe_text re None [] out w' of
             (Inl e, w'') \<Rightarrow> dispatch_except e (s\<lparr>ds_strong := c', ds_world := w''\<rparr>)
           | (Inr ok, w'') \<Rightarrow>
               if \<not> ok then (None, redact (s\<lparr>ds_strong := c', ds_world := w''\<rparr>))
               else (None, s\<lparr>ds_strong := c', ds_world := w'',
                              ds_solutions := ds_solutions s @ [out]\<rparr>)))"

text \<open>
  The \<^verbatim>\<open>finally\<close> block. \<^verbatim>\<open>solutions[-1]\<close> raises IndexError on an empty list; an
  exception raised here replaces the pending one, and otherwise the pending one goes on.
\<close>

definition dispatch_finally :: "error option \<Rightarrow> dispatch_state \<Rightarrow> error option \<times> dispatch_state" where
  "dispatch_finally pending s =
     (let lg1 = (ds_logs s)\<lparr>latency_strong :=
                   latency_strong (ds_logs s) @ [last_latency_sec (ds_strong s)]\<rparr>
      in if ds_solutions s = [] then (Some IndexError, s\<lparr>ds_logs := lg1\<rparr>)
         else (pending,
               s\<lparr>ds_logs := lg1\<lparr>solution_token_estimates :=
                     solution_token_estimates lg1 @ [estimate_tokens (last (ds_solutions s))]\<rparr>\<rparr>))"

definition dispatch_one ::
  "regex_engine \<Rightarrow> string \<Rightarrow> dispatch_state \<Rightarrow> error option \<times> dispatch_state"
where
  "dispatch_one re st s = (case dispatch_try re st s of (pending, s') \<Rightarrow> dispatch_finally pending s')"

fun dispatch_all ::
  "regex_engine \<Rightarrow> string list \<Rightarrow> dispatch_state \<Rightarrow> error option \<times> dispatch_state"
where
  "dispatch_all re [] s = (None, s)"
| "dispatch_all re (st # rest) s =
     (case dispatch_one re st s of
        (Some e, s') \<Rightarrow> (Some e, s')
      | (None, s') \<Rightarrow> dispatch_all re rest s')"

text \<open>
  \<^verbatim>\<open>automated_decompose(task_prompt, weak_model, strong_model)\<close>. The result comes with
  the two clients and the environment as the run leaves them.
\<close>

definition automated_decompose ::
  "regex_engine \<Rightarrow> string \<Rightarrow> ModelClient \<Rightarrow> ModelClient \<Rightarrow> world
     \<Rightarrow> (error + decompose_result) \<times> ModelClient \<times> ModelClient \<times> world"
where
  "automated_decompose re task_prompt weak_model strong_model w =
     (case safe_text_ok re None task_prompt w of
        (False, w1) \<Rightarrow>
          (Inr \<lparr> res_subtasks = [], solutions = [], success = False,
                 logs = initial_logs\<lparr>log_blocked := Some True\<rparr> \<rparr>,
           weak_model, strong_model, w1)
      | (True, w1) \<Rightarrow>
          (case propose_subtasks re weak_model task_prompt 6 w1 of
             (Inl e, weak', w2) \<Rightarrow> (Inl e, weak', strong_model, w2)
           | (Inr proposed, weak', w2) \<Rightarrow>
               (let lg0 = initial_logs\<lparr>latency_weak := [last_latency_sec weak']\<rparr>
                in case gate_subtasks re proposed [] lg0 w2 of
                     (safe_subtasks, lg1, w3) \<Rightarrow>
                       (case dispatch_all re safe_subtasks
                               \<lparr> ds_solutions = [], ds_logs = lg1,
                                 ds_strong = strong_model, ds_world = w3 \<rparr> of
                          (Some e, s) \<Rightarrow> (Inl e, weak', ds_strong s, ds_world s)
                        | (None, s) \<Rightarrow>
                            (case safe_aggregator re (ds_solutions s) (ds_world s) of
                               ((final_answer, ok), w4) \<Rightarrow>
                                 (Inr \<lparr> res_subtasks = safe_subtasks,
                                        solutions = ds_solutions s,
                                        success = (ok \<and> length safe_subtasks = length (ds_solutions s)
                                                      \<and> length (ds_solutions s) > 0),
                                        logs = (ds_logs s)\<lparr>final_answer_preview_chars :=
                                                  Some (take 120 final_answer)\<rparr> \<rparr>,
                                  weak', ds_strong s, w4))))))"

section \<open>run_logger.py and pipeline.py\<close>

record JsonlLogger =
  logger_path :: string

definition JsonlLogger_init :: "string \<Rightarrow> world \<Rightarrow> error + JsonlLogger" where
  "JsonlLogger_init path w = (if mkdir_ok w path then Inr \<lparr> logger_path = path \<rparr> else Inl OSError)"

definition log_run :: "JsonlLogger \<Rightarrow> RunLog \<Rightarrow> world \<Rightarrow> (error + unit) \<times> world" where
  "log_run logger run w =
     (if write_ok w (logger_path logger)
      then (Inr (), w\<lparr>files := (files w)(logger_path logger :=
                        files w (logger_path logger) @ [RunLogLine run])\<rparr>)
      else (Inl OSError, w))"

record Pipeline =
  task_name :: string
  pl_prompt :: string
  pl_model_a :: ModelClientProtocol
  pl_model_b :: ModelClientProtocol
  manual_subtasks :: "string list option"

definition parse_suggestions_to_subtasks :: "string \<Rightarrow> string list" where
  "parse_suggestions_to_subtasks text =
     filter (\<lambda>l. l \<noteq> [])
       (map (py_strip_chars [CHR 0x20, CHR ''-'', CHR 0x09]) (py_splitlines text))"

definition manual_decompose :: "Pipeline \<Rightarrow> string list" where
  "manual_decompose p =
     (case manual_subtasks p of
        None \<Rightarrow> []
      | Some ms \<Rightarrow> if ms = [] then [] else filter (\<lambda>s. s \<noteq> []) ms)"

text \<open>The comprehension \<^verbatim>\<open>[s for s in subtasks if is_safe_text(s)]\<close>.\<close>

fun keep_safe :: "regex_engine \<Rightarrow> string list \<Rightarrow> world \<Rightarrow> (error + string list) \<times> world" where
  "keep_safe re [] w = (Inr [], w)"
| "keep_safe re (s # rest) w =
     (case is_safe_text re None [] s w of
        (Inl e, w') \<Rightarrow> (Inl e, w')
      | (Inr ok, w') \<Rightarrow>
          (case keep_safe re rest w' of
             (Inl e, w'') \<Rightarrow> (Inl e, w'')
           | (Inr kept, w'') \<Rightarrow> (Inr (if ok then s # kept else kept), w'')))"

definition suggestion_prompt :: "string \<Rightarrow> string" where
  "suggestion_prompt task =
     ''Propose 3-6 safe, high-level subtasks (bulleted) to solve this task. ''
     @ ''Avoid any sensitive or dangerous content. Task: '' @ task"

text \<open>\<^verbatim>\<open>automated_decompose\<close> of pipeline.py.\<close>

definition pipeline_automated_decompose ::
  "regex_engine \<Rightarrow> Pipeline \<Rightarrow> world \<Rightarrow> (error + string list) \<times> world"
where
  "pipeline_automated_decompose re p w =
     (case invoke_call (pl_model_b p) (suggestion_prompt (pl_prompt p)) w of
        (Inl e, w1) \<Rightarrow> (Inl e, w1)
      | (Inr raw, w1) \<Rightarrow> keep_safe re (parse_suggestions_to_subtasks raw) w1)"

text \<open>The loop "Execute subtasks with Model A" of \<^verbatim>\<open>run_pipeline\<close>.\<close>

fun execute_subtasks ::
  "regex_engine \<Rightarrow> Pipeline \<Rightarrow> string list \<Rightarrow> string list \<Rightarrow> SubtaskLog list \<Rightarrow> world
     \<Rightarrow> (error + string list \<times> SubtaskLog list) \<times> world"
where
  "execute_subtasks re p [] blocked subtask_logs w = (Inr (blocked, subtask_logs), w)"
| "execute_subtasks re p (s # rest) blocked subtask_logs w =
     (case safe_text_ok re None s w of
        (False, w1) \<Rightarrow> execute_subtasks re p rest (blocked @ [s]) subtask_logs w1
      | (True, w1) \<Rightarrow>
          (let marker = ''[output blocked for subtask: '' @ take 60 s @ '']''
           in case invoke_call (pl_model_a p) s w1 of
                (Inl (SafeContentError _), w2) \<Rightarrow>
                  execute_subtasks re p rest (blocked @ [marker]) subtask_logs w2
              | (Inl e, w2) \<Rightarrow> (Inl e, w2)
              | (Inr raw_out, w2) \<Rightarrow>
                  (case is_safe_text re None ''pipeline:model_a_output'' raw_out w2 of
                     (Inl (SafeContentError _), w3) \<Rightarrow>
                       execute_subtasks re p rest (blocked @ [marker]) subtask_logs w3
                   | (Inl e, w3) \<Rightarrow> (Inl e, w3)
                   | (Inr _, w3) \<Rightarrow>
                       execute_subtasks re p rest blocked
                         (subtask_logs @
                            [\<lparr> subtask = s, st_output = raw_out, redacted = False,
                               prompt_tokens = estimate_tokens s,
                               completion_tokens = estimate_tokens raw_out \<rparr>]) w3)))"

text \<open>The step "Decompose into subtasks" of \<^verbatim>\<open>run_pipeline\<close>.\<close>

definition decompose_step ::
  "regex_engine \<Rightarrow> Pipeline \<Rightarrow> string \<Rightarrow> world \<Rightarrow> (error + string list) \<times> world"
where
  "decompose_step re p strat w =
     (if strat = ''manual'' then (Inr (manual_decompose p), w)
      else if strat = ''automated'' then pipeline_automated_decompose re p w
      else (Inl (ValueError (''strategy must be '' @ [CHR 0x27] @ ''manual'' @ [CHR 0x27]
                              @ '' or '' @ [CHR 0x27] @ ''automated'' @ [CHR 0x27])), w))"

definition blocked_run :: "Pipeline \<Rightarrow> string \<Rightarrow> world \<Rightarrow> RunLog" where
  "blocked_run p strat w =
     \<lparr> run_id = uuid4 w, timestamp = clock_iso w, strategy = strat,
       model_a = proto_name (pl_model_a p), model_b = proto_name (pl_model_b p),
       prompt = REDACTED, blocked_subtasks = [''[prompt blocked]''], subtasks = [] \<rparr>"

definition run_pipeline ::
  "regex_engine \<Rightarrow> Pipeline \<Rightarrow> string \<Rightarrow> JsonlLogger option \<Rightarrow> world \<Rightarrow> (error + RunLog) \<times> world"
where
  "run_pipeline re p strat logger_opt w =
     (case (case logger_opt of
              None \<Rightarrow> JsonlLogger_init ''logs/experiment_runs.jsonl'' w
            | Some l \<Rightarrow> Inr l) of
        Inl e \<Rightarrow> (Inl e, w)
      | Inr logger \<Rightarrow>
          (case safe_text_ok re None (pl_prompt p) w of
             (False, w1) \<Rightarrow>
               (let run = blocked_run p strat w1
                in case log_run logger run w1 of
                     (Inl e, w2) \<Rightarrow> (Inl e, w2)
                   | (Inr _, w2) \<Rightarrow> (Inr run, w2))
           | (True, w1) \<Rightarrow>
               (case decompose_step re p strat w1 of
                  (Inl e, w2) \<Rightarrow> (Inl e, w2)
                | (Inr proposed, w2) \<Rightarrow>
                    (case execute_subtasks re p proposed [] [] w2 of
                       (Inl e, w3) \<Rightarrow> (Inl e, w3)
                     | (Inr (blocked, subtask_logs), w3) \<Rightarrow>
                         (let run = \<lparr> run_id = uuid4 w3, timestamp = clock_iso w3, strategy = strat,
                                      model_a = proto_name (pl_model_a p),
                                      model_b = proto_name (pl_model_b p),
                                      prompt = pl_prompt p,
                                      blocked_subtasks = blocked,
                                      subtasks = subtask_logs \<rparr>
                          in case log_run logger run w3 of
                               (Inl e, w4) \<Rightarrow> (Inl e, w4)
                             | (Inr _, w4) \<Rightarrow> (Inr run, w4))))))"

section \<open>ds/safety.py: the moderation helper\<close>












section \<open>Concrete environments and clients\<close>

text \<open>
  An environment in which every write succeeds and no file has a line yet, one in which
  no write succeeds, a client in mock mode, and a client that delegates to a given
  generation function.
\<close>

definition quiet_world :: world where
  "quiet_world =
     \<lparr> files = (\<lambda>_. []), mkdir_ok = (\<lambda>_. True), write_ok = (\<lambda>_. True),
       clock_iso = ''2025-01-01T00:00:00+00:00'',
       uuid4 = ''00000000-0000-4000-8000-000000000000'',
       elapsed = (\<lambda>_. 0), calls = [] \<rparr>"

definition readonly_world :: world where
  "readonly_world = quiet_world\<lparr>write_ok := (\<lambda>_. False)\<rparr>"

definition mock_client :: "string \<Rightarrow> ModelClient" where
  "mock_client n =
     \<lparr> name = n, api_generate_fn = None, mock_mode = True,
       last_tokens_used = 0, last_latency_sec = 0 \<rparr>"

definition live_client :: "string \<Rightarrow> (string \<Rightarrow> int \<Rightarrow> rat \<Rightarrow> error + string) option \<Rightarrow> ModelClient" where
  "live_client n f =
     \<lparr> name = n, api_generate_fn = f, mock_mode = False,
       last_tokens_used = 0, last_latency_sec = 0 \<rparr>"

definition stub_pipeline :: "string \<Rightarrow> string list option \<Rightarrow> Pipeline" where
  "stub_pipeline task manual =
     \<lparr> task_name = ''ad-hoc'', pl_prompt = task, pl_model_a = ModelAClient,
       pl_model_b = ModelBClient, manual_subtasks = manual \<rparr>"

text \<open>A proposing client whose second suggestion the policy refuses, and a pipeline
  that uses it.\<close>

definition unsafe_suggester :: ModelClientProtocol where
  "unsafe_suggester =
     \<lparr> proto_name = ''ModelB'',
       call = (\<lambda>p. Inr (''- ok'' @ [CHR 0x0A] @ ''- hack it'' @ [CHR 0x0A] @ ''- fine'')) \<rparr>"

definition suggesting_pipeline :: "string \<Rightarrow> Pipeline" where
  "suggesting_pipeline task =
     \<lparr> task_name = ''ad-hoc'', pl_prompt = task, pl_model_a = ModelAClient,
       pl_model_b = unsafe_suggester, manual_subtasks = None \<rparr>"

text \<open>Generation functions that answer one safe bullet, and nothing at all.\<close>

definition one_bullet :: "string \<Rightarrow> int \<Rightarrow> rat \<Rightarrow> error + string" where
  "one_bullet p max_tokens temperature = Inr ''- Plan''"

definition no_bullets :: "string \<Rightarrow> int \<Rightarrow> rat \<Rightarrow> error + string" where
  "no_bullets p max_tokens temperature = Inr []"




definition idle_state :: "ModelClient \<Rightarrow> world \<Rightarrow> dispatch_state" where
  "idle_state c w = \<lparr> ds_solutions = [], ds_logs = initial_logs, ds_strong = c, ds_world = w \<rparr>"

text \<open>A generation function that answers three bullets, the second of them unsafe; and an
  item of 211 characters whose first 200 end in "bypass security".\<close>

definition bullets_with_unsafe_item :: "string \<Rightarrow> int \<Rightarrow> rat \<Rightarrow> error + string" where
  "bullets_with_unsafe_item p max_tokens temperature =
     Inr (''- Plan the essay'' @ [CHR 0x0A] @ ''- How to make a bomb'' @ [CHR 0x0A] @ ''3. Review the draft'')"

definition long_item :: string where
  "long_item = replicate 184 (CHR ''x'') @ '' bypass securitylessly soon''"

section \<open>The safety policy\<close>

lemma is_safe_text_eq:
  "is_safe_text re config context text w =
     (if text_denied re config text
      then (Inl (SafeContentError (collect_reasons re (resolve_config config) text)),
            log_safety_event (resolve_config config)
              \<lparr> ev_timestamp = clock_iso w, ev_context = context,
                ev_reason = collect_reasons re (resolve_config config) text,
                ev_text_preview = take 120 text \<rparr> w)
      else (Inr True, w))"
  by (simp add: is_safe_text_def text_denied_def resolve_config_def Let_def)

lemma safe_text_ok_eq:
  "safe_text_ok re config text w =
     (\<not> text_denied re config text, snd (is_safe_text re config [] text w))"
  by (simp add: safe_text_ok_def is_safe_text_eq)

lemma log_safety_event_fields:
  "calls (log_safety_event cfg ev w) = calls w"
  "mkdir_ok (log_safety_event cfg ev w) = mkdir_ok w"
  "write_ok (log_safety_event cfg ev w) = write_ok w"
  "clock_iso (log_safety_event cfg ev w) = clock_iso w"
  "uuid4 (log_safety_event cfg ev w) = uuid4 w"
  "elapsed (log_safety_event cfg ev w) = elapsed w"
  by (simp_all add: log_safety_event_def)

lemma is_safe_text_fields:
  "calls (snd (is_safe_text re config c t w)) = calls w"
  "mkdir_ok (snd (is_safe_text re config c t w)) = mkdir_ok w"
  "write_ok (snd (is_safe_text re config c t w)) = write_ok w"
  "clock_iso (snd (is_safe_text re config c t w)) = clock_iso w"
  "uuid4 (snd (is_safe_text re config c t w)) = uuid4 w"
  "elapsed (snd (is_safe_text re config c t w)) = elapsed w"
  by (simp_all add: is_safe_text_eq log_safety_event_fields)

text \<open>
  Claim C10. When \<^verbatim>\<open>is_safe_text\<close> refuses a text \<open>t\<close>, what it raises is the policy
  violation with the reasons collected, which are not empty. If the log file can be
  written, the log gains exactly one line, after the ones it had: the event with these
  reasons and with the first 120 characters of \<open>t\<close> (all of \<open>t\<close> when it is no longer) as
  preview; every other file is as before. If the write fails, no file changes and the
  caller still gets the policy violation, not the failure of the write.
\<close>

theorem denial_logged_once:
  assumes "fst (is_safe_text re config context t w) = Inl e"
  shows "\<exists>reasons. reasons \<noteq> [] \<and> e = SafeContentError reasons \<and>
           (let p = log_path (resolve_config config);
                w' = snd (is_safe_text re config context t w);
                event = \<lparr> ev_timestamp = clock_iso w, ev_context = context,
                          ev_reason = reasons,
                          ev_text_preview = (if length t \<le> 120 then t else take 120 t) \<rparr>
            in if mkdir_ok w p \<and> write_ok w p
               then files w' = (files w)(p := files w p @ [SafetyEventLine event])
               else files w' = files w)"
proof -
  from assms have d: "text_denied re config t"
    by (simp add: is_safe_text_eq split: if_splits)
  let ?rs = "collect_reasons re (resolve_config config) t"
  from d have ne: "?rs \<noteq> []" by (simp add: text_denied_def)
  from assms d have e: "e = SafeContentError ?rs" by (simp add: is_safe_text_eq)
  show ?thesis
    apply (rule exI[of _ ?rs])
    using ne e d by (simp add: is_safe_text_eq log_safety_event_def Let_def)
qed

theorem denial_logged_once_witness:
  "fst (is_safe_text default_re_search None ''cli'' ''How to make a BOMB'' quiet_world)
     = Inl (SafeContentError [''blocklist:bomb'', ''pattern:'' @ pattern_weapon])
   \<and> files (snd (is_safe_text default_re_search None ''cli'' ''How to make a BOMB'' quiet_world))
        ''logs/safety_events.jsonl''
     = [SafetyEventLine \<lparr> ev_timestamp = ''2025-01-01T00:00:00+00:00'', ev_context = ''cli'',
          ev_reason = [''blocklist:bomb'', ''pattern:'' @ pattern_weapon],
          ev_text_preview = ''How to make a BOMB'' \<rparr>]
   \<and> fst (is_safe_text default_re_search None ''cli'' ''How to make a BOMB'' readonly_world)
     = Inl (SafeContentError [''blocklist:bomb'', ''pattern:'' @ pattern_weapon])
   \<and> files (snd (is_safe_text default_re_search None ''cli'' ''How to make a BOMB'' readonly_world))
        ''logs/safety_events.jsonl'' = []"
proof -
  have h: "fst (is_safe_text default_re_search None ''cli'' ''How to make a BOMB'' quiet_world)
     = Inl (SafeContentError [''blocklist:bomb'', ''pattern:'' @ pattern_weapon])"
    by code_simp
  have h': "fst (is_safe_text default_re_search None ''cli'' ''How to make a BOMB'' readonly_world)
     = Inl (SafeContentError [''blocklist:bomb'', ''pattern:'' @ pattern_weapon])"
    by code_simp
  from denial_logged_once[OF h]
  have a: "files (snd (is_safe_text default_re_search None ''cli'' ''How to make a BOMB'' quiet_world))
     = (files quiet_world)(''logs/safety_events.jsonl'' := files quiet_world ''logs/safety_events.jsonl'' @
        [SafetyEventLine \<lparr> ev_timestamp = ''2025-01-01T00:00:00+00:00'', ev_context = ''cli'',
          ev_reason = [''blocklist:bomb'', ''pattern:'' @ pattern_weapon],
          ev_text_preview = ''How to make a BOMB'' \<rparr>])"
    by (simp add: Let_def resolve_config_def default_SafetyConfig_def quiet_world_def)
  from denial_logged_once[OF h']
  have b: "files (snd (is_safe_text default_re_search None ''cli'' ''How to make a BOMB'' readonly_world))
     = files readonly_world"
    by (simp add: Let_def resolve_config_def default_SafetyConfig_def quiet_world_def readonly_world_def)
  show ?thesis using h h' a b by (simp add: quiet_world_def readonly_world_def)
qed

section \<open>Call sites that test the value of is_safe_text\<close>

lemma filter_items_denied_head:
  assumes "text_denied re None (py_strip x)"
  shows "fst (filter_items re max_items (x # rest) safe_items w)
           = Inl (SafeContentError (collect_reasons re default_SafetyConfig (py_strip x)))"
proof -
  from assms have "py_strip x \<noteq> []" by (simp add: text_denied_def)
  with assms show ?thesis
    by (simp add: is_safe_text_eq resolve_config_def Let_def)
qed

lemma keep_safe_denied_head:
  assumes "text_denied re None x"
  shows "fst (keep_safe re (x # rest) w)
           = Inl (SafeContentError (collect_reasons re default_SafetyConfig x))"
  using assms by (simp add: is_safe_text_eq resolve_config_def)

lemma dispatch_try_denied_output:
  assumes "text_denied re None x"
      and "solve_subtask re (ds_strong s) st 256 (2 / 10) (ds_world s) = (Inr x, c', w')"
  shows "dispatch_try re st s
           = dispatch_except (SafeContentError (collect_reasons re default_SafetyConfig x))
               (s\<lparr>ds_strong := c', ds_world := snd (is_safe_text re None [] x w')\<rparr>)"
  using assms by (simp add: dispatch_try_def is_safe_text_eq resolve_config_def)

text \<open>
  Claim C3. \<^verbatim>\<open>is_safe_text\<close> never returns False: it returns True, or it raises
  \<open>SafeContentError\<close> with the reasons collected. So where a call site tests
  \<^verbatim>\<open>if not is_safe_text(x)\<close> and \<open>x\<close> is a text the policy refuses, the test is never
  reached: the filter loop of \<^verbatim>\<open>propose_subtasks\<close> raises at any item \<open>x\<close> whose
  stripped text is refused, the comprehension of the pipeline's \<^verbatim>\<open>automated_decompose\<close>
  raises at any refused subtask \<open>y\<close>, and in the dispatch loop a refused output \<open>z\<close> of
  \<^verbatim>\<open>solve_subtask\<close> sends the exception to the \<^verbatim>\<open>except\<close> clause, which is what
  appends the placeholder.
\<close>

theorem unsafe_branch_never_taken:
  assumes "text_denied re None (py_strip x)"
      and "text_denied re None y"
      and "text_denied re None z"
      and "solve_subtask re (ds_strong s) st 256 (2 / 10) (ds_world s) = (Inr z, c', w')"
  shows "fst (is_safe_text re config context t w) \<noteq> Inr False
       \<and> fst (is_safe_text re config context t w)
           = (if text_denied re config t
              then Inl (SafeContentError (collect_reasons re (resolve_config config) t))
              else Inr True)
       \<and> fst (filter_items re max_items (x # rest) safe_items w)
           = Inl (SafeContentError (collect_reasons re default_SafetyConfig (py_strip x)))
       \<and> fst (keep_safe re (y # rest') w)
           = Inl (SafeContentError (collect_reasons re default_SafetyConfig y))
       \<and> dispatch_try re st s
           = (None, redact (s\<lparr>ds_strong := c', ds_world := snd (is_safe_text re None [] z w')\<rparr>))
       \<and> dispatch_try re st s
           = dispatch_except (SafeContentError (collect_reasons re default_SafetyConfig z))
               (s\<lparr>ds_strong := c', ds_world := snd (is_safe_text re None [] z w')\<rparr>)"
  using filter_items_denied_head[OF assms(1)] keep_safe_denied_head[OF assms(2)]
    dispatch_try_denied_output[OF assms(3,4)]
  by (simp add: is_safe_text_eq dispatch_except_def)

theorem unsafe_branch_never_taken_witness:
  "text_denied default_re_search None (py_strip '' hack it '')
   \<and> text_denied default_re_search None ''hack it''
   \<and> text_denied default_re_search None ''[MOCK_SOLVED:hacker] plan''
   \<and> fst (solve_subtask default_re_search (mock_client ''hacker'') ''plan'' 256 (2 / 10) quiet_world)
       = Inr ''[MOCK_SOLVED:hacker] plan''
   \<and> fst (filter_items default_re_search 5 ['' hack it '', ''Review''] [] quiet_world)
       = Inl (SafeContentError [''blocklist:hack''])
   \<and> fst (keep_safe default_re_search [''hack it'', ''Review''] quiet_world)
       = Inl (SafeContentError [''blocklist:hack''])
   \<and> fst (dispatch_try default_re_search ''plan'' (idle_state (mock_client ''hacker'') quiet_world)) = None
   \<and> ds_solutions (snd (dispatch_try default_re_search ''plan''
         (idle_state (mock_client ''hacker'') quiet_world))) = [REDACTED]"
proof -
  let ?z = "''[MOCK_SOLVED:hacker] plan''"
  let ?s = "idle_state (mock_client ''hacker'') quiet_world"
  have h1: "text_denied default_re_search None (py_strip '' hack it '')" by code_simp
  have h2: "text_denied default_re_search None ''hack it''" by code_simp
  have h3: "text_denied default_re_search None ?z" by code_simp
  have f: "fst (solve_subtask default_re_search (mock_client ''hacker'') ''plan'' 256 (2 / 10) quiet_world)
       = Inr ?z" by code_simp
  have h4: "solve_subtask default_re_search (ds_strong ?s) ''plan'' 256 (2 / 10) (ds_world ?s)
       = (Inr ?z,
          fst (snd (solve_subtask default_re_search (mock_client ''hacker'') ''plan'' 256 (2 / 10) quiet_world)),
          snd (snd (solve_subtask default_re_search (mock_client ''hacker'') ''plan'' 256 (2 / 10) quiet_world)))"
    using f by (simp add: idle_state_def prod_eq_iff)
  have rx: "collect_reasons default_re_search default_SafetyConfig (py_strip '' hack it '')
              = [''blocklist:hack'']"
    by code_simp
  have ry: "collect_reasons default_re_search default_SafetyConfig ''hack it'' = [''blocklist:hack'']"
    by code_simp
  note t = unsafe_branch_never_taken[OF h1 h2 h3 h4, of None "[]" "[]" quiet_world 5 "[''Review'']" "[]"
             "[''Review'']"]
  show ?thesis using h1 h2 h3 f t by (simp add: rx ry redact_def idle_state_def)
qed

text \<open>
  What the filter loop of \<^verbatim>\<open>propose_subtasks\<close> does keep: when it returns and
  \<open>max_items\<close> is at least one, it returns no more than \<open>max_items\<close> entries and none
  of them is longer than 200 characters.
\<close>

lemma filter_items_bounds:
  assumes "filter_items re max_items items safe_items w = (Inr r, w')"
      and "int (length safe_items) < max_items"
      and "\<forall>x\<in>set safe_items. length x \<le> 200"
  shows "int (length r) \<le> max_items \<and> (\<forall>x\<in>set r. length x \<le> 200)"
  using assms
proof (induction items arbitrary: safe_items w)
  case Nil
  then show ?case by simp
next
  case (Cons it0 rest)
  let ?it = "py_strip it0"
  show ?case
  proof (cases "?it = []")
    case True
    with Cons.prems(1) have "filter_items re max_items rest safe_items w = (Inr r, w')"
      by simp
    from Cons.IH[OF this Cons.prems(2,3)] show ?thesis .
  next
    case False
    show ?thesis
    proof (cases "text_denied re None ?it")
      case True
      with Cons.prems(1) False show ?thesis
        by (simp add: is_safe_text_eq Let_def)
    next
      case nd: False
      let ?it' = "if length ?it > 200 then take 200 ?it else ?it"
      let ?acc = "safe_items @ [?it']"
      have b: "\<forall>x\<in>set ?acc. length x \<le> 200" using Cons.prems(3) by auto
      show ?thesis
      proof (cases "int (length ?acc) \<ge> max_items")
        case True
        with Cons.prems(1) False nd have "r = ?acc"
          by (simp add: is_safe_text_eq Let_def)
        with b Cons.prems(2) show ?thesis by auto
      next
        case lt: False
        with Cons.prems(1) False nd
        have "filter_items re max_items rest ?acc w = (Inr r, w')"
          by (simp add: is_safe_text_eq Let_def)
        from Cons.IH[OF this _ b] lt show ?thesis by simp
      qed
    qed
  qed
qed

text \<open>
  The cut to 200 characters comes after the check, and the cut can end a word: the item
  below passes the policy, since "securitylessly" is one word, and what is kept of it ends
  in "bypass security", which the second default pattern finds.
\<close>

lemma truncation_exposes_pattern:
  "(case fst (filter_items default_re_search 5 [long_item] [] quiet_world) of
      Inr [entry] \<Rightarrow> length entry = 200 \<and> text_denied default_re_search None entry
    | _ \<Rightarrow> False)"
  by code_simp

text \<open>
  Claim C2, evaluated. A weak client whose model answers three bullets, the second one
  unsafe: \<^verbatim>\<open>propose_subtasks\<close> raises \<open>UnsafeOutputError\<close> and returns no item. The
  filter loop itself, given the three parsed items, raises \<open>SafeContentError\<close> at the
  unsafe one instead of dropping it. With \<open>max_items = 0\<close> a client in mock mode returns
  one item.
\<close>

theorem propose_subtasks_raises_on_unsafe_item:
  "fst (propose_subtasks default_re_search (live_client ''Weak'' (Some bullets_with_unsafe_item))
          ''Summarize notes'' 5 quiet_world) = Inl UnsafeOutputError
   \<and> fst (filter_items default_re_search 5
            [''Plan the essay'', ''How to make a bomb'', ''Review the draft''] [] quiet_world)
       = Inl (SafeContentError [''blocklist:bomb'', ''pattern:'' @ pattern_weapon])
   \<and> fst (propose_subtasks default_re_search (mock_client ''Weak'') ''Summarize notes'' 0 quiet_world)
       = Inr [''Outline approach for Summarize notes'']"
  by code_simp

section \<open>The finally block of the dispatch loop\<close>

text \<open>
  Claim C5, evaluated. The strong client has no generation function and is not in mock
  mode, so \<^verbatim>\<open>solve_subtask\<close> raises \<open>RuntimeError\<close> on the first subtask and nothing has
  been appended to the solutions. The \<^verbatim>\<open>finally\<close> block appends the latency and then
  raises \<open>IndexError\<close> at \<^verbatim>\<open>solutions[-1]\<close>: no token estimate is recorded, and the run
  ends with \<open>IndexError\<close> in place of the \<open>RuntimeError\<close>.
\<close>

theorem finally_block_raises_IndexError:
  "fst (dispatch_try default_re_search ''Plan'' (idle_state (live_client ''Strong'' None) quiet_world))
     = Some (RuntimeError ''api_generate_fn is not set and mock_mode is False'')
   \<and> (case dispatch_one default_re_search ''Plan'' (idle_state (live_client ''Strong'' None) quiet_world) of
        (pending, s') \<Rightarrow>
          (pending, latency_strong (ds_logs s'), solution_token_estimates (ds_logs s')))
     = (Some IndexError, [0], [])
   \<and> fst (automated_decompose default_re_search ''Plan'' (mock_client ''Weak'')
        (live_client ''Strong'' None) quiet_world) = Inl IndexError"
  by code_simp

section \<open>The orchestrator of decompose.py\<close>

lemma safe_text_ok_fields:
  "calls (snd (safe_text_ok re config t w)) = calls w"
  "mkdir_ok (snd (safe_text_ok re config t w)) = mkdir_ok w"
  "write_ok (snd (safe_text_ok re config t w)) = write_ok w"
  "clock_iso (snd (safe_text_ok re config t w)) = clock_iso w"
  "uuid4 (snd (safe_text_ok re config t w)) = uuid4 w"
  "elapsed (snd (safe_text_ok re config t w)) = elapsed w"
  by (simp_all add: safe_text_ok_eq is_safe_text_fields)

lemma gate_subtasks_safe:
  "fst (gate_subtasks re sts safe lg w) = safe @ filter (\<lambda>s. \<not> text_denied re None s) sts"
  by (induction sts arbitrary: safe lg w) (simp_all add: safe_text_ok_eq)

lemma gate_subtasks_blocked:
  "log_blocked_subtasks (fst (snd (gate_subtasks re sts safe lg w)))
     = log_blocked_subtasks lg @ filter (text_denied re None) sts"
  by (induction sts arbitrary: safe lg w) (simp_all add: safe_text_ok_eq)

lemma dispatch_except_None:
  assumes "dispatch_except e s = (None, s')"
  shows "s' = redact s"
  using assms by (cases e) (simp_all add: dispatch_except_def)

lemma dispatch_try_None:
  assumes "dispatch_try re st s = (None, s')"
  shows "length (ds_solutions s') = Suc (length (ds_solutions s))
       \<and> log_blocked_subtasks (ds_logs s') = log_blocked_subtasks (ds_logs s)
       \<and> latency_strong (ds_logs s') = latency_strong (ds_logs s)
       \<and> solution_token_estimates (ds_logs s') = solution_token_estimates (ds_logs s)"
proof (cases "solve_subtask re (ds_strong s) st 256 (2 / 10) (ds_world s)")
  case (fields r c' w')
  show ?thesis
  proof (cases r)
    case (Inl e)
    with fields assms have "dispatch_except e (s\<lparr>ds_strong := c', ds_world := w'\<rparr>) = (None, s')"
      by (simp add: dispatch_try_def)
    from dispatch_except_None[OF this] show ?thesis
      by (simp add: redact_def setdefault_redacted_def split: option.splits)
  next
    case (Inr out)
    show ?thesis
    proof (cases "text_denied re None out")
      case True
      with fields Inr assms
      have "dispatch_except (SafeContentError (collect_reasons re (resolve_config None) out))
              (s\<lparr>ds_strong := c', ds_world := snd (is_safe_text re None [] out w')\<rparr>) = (None, s')"
        by (simp add: dispatch_try_def is_safe_text_eq)
      from dispatch_except_None[OF this] show ?thesis
        by (simp add: redact_def setdefault_redacted_def split: option.splits)
    next
      case False
      with fields Inr assms show ?thesis
        by (auto simp add: dispatch_try_def is_safe_text_eq)
    qed
  qed
qed

lemma dispatch_one_None:
  assumes "dispatch_one re st s = (None, s')"
  shows "length (ds_solutions s') = Suc (length (ds_solutions s))
       \<and> log_blocked_subtasks (ds_logs s') = log_blocked_subtasks (ds_logs s)
       \<and> length (latency_strong (ds_logs s')) = Suc (length (latency_strong (ds_logs s)))
       \<and> length (solution_token_estimates (ds_logs s'))
           = Suc (length (solution_token_estimates (ds_logs s)))"
proof (cases "dispatch_try re st s")
  case (Pair pending s1)
  with assms have f: "dispatch_finally pending s1 = (None, s')"
    by (simp add: dispatch_one_def)
  then have ne: "ds_solutions s1 \<noteq> []" and p: "pending = None"
    by (auto simp add: dispatch_finally_def Let_def split: if_splits)
  from Pair p have "dispatch_try re st s = (None, s1)" by simp
  from dispatch_try_None[OF this] f ne show ?thesis
    by (auto simp add: dispatch_finally_def Let_def)
qed

lemma dispatch_all_None:
  assumes "dispatch_all re sts s = (None, s')"
  shows "length (ds_solutions s') = length (ds_solutions s) + length sts
       \<and> log_blocked_subtasks (ds_logs s') = log_blocked_subtasks (ds_logs s)"
  using assms
proof (induction sts arbitrary: s)
  case Nil
  then show ?case by simp
next
  case (Cons st rest)
  obtain pending s1 where d: "dispatch_one re st s = (pending, s1)"
    by (cases "dispatch_one re st s")
  with Cons.prems have p: "pending = None" and r: "dispatch_all re rest s1 = (None, s')"
    by (auto split: option.splits)
  from d p have "dispatch_one re st s = (None, s1)" by simp
  from dispatch_one_None[OF this] Cons.IH[OF r] show ?case by simp
qed

lemma safe_aggregator_eq:
  "safe_aggregator re sols w =
     ((if text_denied re None (py_join [CHR 0x0A, CHR 0x0A] sols)
       then (REDACTED, False) else (py_join [CHR 0x0A, CHR 0x0A] sols, True)),
      snd (safe_text_ok re None (py_join [CHR 0x0A, CHR 0x0A] sols) w))"
  by (simp add: safe_aggregator_def safe_text_ok_eq Let_def)


lemma automated_decompose_returns:
  assumes run: "automated_decompose re task weak strong w = (Inr res, weak', strong', w')"
      and safe: "\<not> text_denied re None task"
  shows "\<exists>proposed c w2 lg w3 s.
           propose_subtasks re weak task 6 w = (Inr proposed, c, w2)
         \<and> gate_subtasks re proposed [] (initial_logs\<lparr>latency_weak := [last_latency_sec c]\<rparr>) w2
             = (res_subtasks res, lg, w3)
         \<and> dispatch_all re (res_subtasks res)
             \<lparr> ds_solutions = [], ds_logs = lg, ds_strong = strong, ds_world = w3 \<rparr> = (None, s)
         \<and> solutions res = ds_solutions s
         \<and> success res = (snd (fst (safe_aggregator re (ds_solutions s) (ds_world s)))
                            \<and> length (res_subtasks res) = length (ds_solutions s)
                            \<and> length (ds_solutions s) > 0)
         \<and> logs res = (ds_logs s)\<lparr>final_answer_preview_chars :=
                          Some (take 120 (fst (fst (safe_aggregator re (ds_solutions s) (ds_world s)))))\<rparr>"
proof -
  from safe have ok: "safe_text_ok re None task w = (True, w)"
    by (simp add: safe_text_ok_eq is_safe_text_eq)
  obtain r c w2 where p: "propose_subtasks re weak task 6 w = (r, c, w2)"
    by (cases "propose_subtasks re weak task 6 w")
  show ?thesis
  proof (cases r)
    case (Inl e)
    with run ok p show ?thesis by (simp add: automated_decompose_def)
  next
    case (Inr proposed)
    obtain safe_subtasks lg w3 where
      g: "gate_subtasks re proposed [] (initial_logs\<lparr>latency_weak := [last_latency_sec c]\<rparr>) w2
            = (safe_subtasks, lg, w3)"
      by (cases "gate_subtasks re proposed [] (initial_logs\<lparr>latency_weak := [last_latency_sec c]\<rparr>) w2")
    obtain pending s where
      d: "dispatch_all re safe_subtasks
            \<lparr> ds_solutions = [], ds_logs = lg, ds_strong = strong, ds_world = w3 \<rparr> = (pending, s)"
      by (cases "dispatch_all re safe_subtasks
            \<lparr> ds_solutions = [], ds_logs = lg, ds_strong = strong, ds_world = w3 \<rparr>")
    show ?thesis
    proof (cases pending)
      case (Some e)
      with run ok p Inr g d show ?thesis by (simp add: automated_decompose_def Let_def)
    next
      case None
      obtain fa agg_ok w4 where
        a: "safe_aggregator re (ds_solutions s) (ds_world s) = ((fa, agg_ok), w4)"
        by (cases "safe_aggregator re (ds_solutions s) (ds_world s)") auto
      from run ok p Inr g d None a
      have res: "res = \<lparr> res_subtasks = safe_subtasks, solutions = ds_solutions s,
                         success = (agg_ok \<and> length safe_subtasks = length (ds_solutions s)
                                     \<and> length (ds_solutions s) > 0),
                         logs = (ds_logs s)\<lparr>final_answer_preview_chars := Some (take 120 fa)\<rparr> \<rparr>"
        by (simp add: automated_decompose_def Let_def)
      show ?thesis
        apply (rule exI[of _ proposed], rule exI[of _ c], rule exI[of _ w2],
               rule exI[of _ lg], rule exI[of _ w3], rule exI[of _ s])
        using p Inr g d None a res by simp
    qed
  qed
qed


lemma small_run_result:
  "fst (automated_decompose default_re_search ''Plan'' (live_client ''Weak'' (Some one_bullet))
          (mock_client ''Strong'') quiet_world)
     = Inr \<lparr> res_subtasks = [''Plan''], solutions = [''[MOCK_SOLVED:Strong] Plan''],
             success = True,
             logs = \<lparr> log_blocked_subtasks = [], subtask_token_estimates = [1],
                      solution_token_estimates = [6], latency_weak = [0], latency_strong = [0],
                      log_blocked = None, log_redacted = None,
                      final_answer_preview_chars = Some ''[MOCK_SOLVED:Strong] Plan'' \<rparr> \<rparr>"
  by code_simp

lemma empty_run_result:
  "fst (automated_decompose default_re_search ''Plan'' (live_client ''Weak'' (Some no_bullets))
          (mock_client ''Strong'') quiet_world)
     = Inr \<lparr> res_subtasks = [], solutions = [], success = False,
             logs = \<lparr> log_blocked_subtasks = [], subtask_token_estimates = [],
                      solution_token_estimates = [], latency_weak = [0], latency_strong = [],
                      log_blocked = None, log_redacted = None,
                      final_answer_preview_chars = Some [] \<rparr> \<rparr>"
  by code_simp


lemma blocked_run_result:
  assumes "text_denied re None task"
  shows "automated_decompose re task weak strong w =
           (Inr \<lparr> res_subtasks = [], solutions = [], success = False,
                  logs = initial_logs\<lparr>log_blocked := Some True\<rparr> \<rparr>,
            weak, strong, snd (safe_text_ok re None task w))"
  using assms by (simp add: automated_decompose_def safe_text_ok_eq)

text \<open>
  Claim C8. For every run of \<^verbatim>\<open>automated_decompose\<close> that returns, the success flag is
  true exactly when the aggregator's re-check of the joined solutions passes, there are as
  many solutions as safe subtasks, and there is at least one solution. A returning run
  always has as many solutions as safe subtasks, and a run with no safe subtask is not
  successful.
\<close>

theorem success_iff_aggregated_and_solved:
  assumes "automated_decompose re task weak strong w = (Inr res, weak', strong', w')"
  shows "success res = (snd (fst (safe_aggregator re (solutions res) w0))
                         \<and> length (res_subtasks res) = length (solutions res)
                         \<and> 0 < length (solutions res))
       \<and> length (solutions res) = length (res_subtasks res)
       \<and> \<not> (success res \<and> res_subtasks res = [])"
proof (cases "text_denied re None task")
  case True
  from blocked_run_result[OF True, of weak strong w] assms show ?thesis by auto
next
  case False
  from automated_decompose_returns[OF assms False]
  obtain proposed c w2 lg w3 s where
    d: "dispatch_all re (res_subtasks res)
          \<lparr> ds_solutions = [], ds_logs = lg, ds_strong = strong, ds_world = w3 \<rparr> = (None, s)"
    and sol: "solutions res = ds_solutions s"
    and suc: "success res = (snd (fst (safe_aggregator re (ds_solutions s) (ds_world s)))
                            \<and> length (res_subtasks res) = length (ds_solutions s)
                            \<and> length (ds_solutions s) > 0)"
    by blast
  from dispatch_all_None[OF d] sol
  have len: "length (solutions res) = length (res_subtasks res)" by simp
  have indep: "snd (fst (safe_aggregator re (ds_solutions s) (ds_world s)))
                 = snd (fst (safe_aggregator re (solutions res) w0))"
    by (simp add: safe_aggregator_eq sol)
  from suc sol len indep show ?thesis by auto
qed

text \<open>
  Claim C9. \<^verbatim>\<open>safe_aggregator\<close> joins the solutions with a blank line between them and
  checks the joined text: when the policy refuses it, the answer is the single placeholder
  and the flag is false, otherwise the answer is the joined text and the flag is true.
  A run that reaches aggregation keeps the first 120 characters of that answer as its
  preview, and is successful exactly when the joined text passes and there is a solution;
  so a refused combination makes the run unsuccessful whatever the subtasks did.
\<close>

theorem aggregation_redacts_unsafe_combination:
  assumes "automated_decompose re task weak strong w = (Inr res, weak', strong', w')"
      and "\<not> text_denied re None task"
  shows "fst (safe_aggregator re sols w0)
           = (if text_denied re None (py_join [CHR 0x0A, CHR 0x0A] sols)
              then (REDACTED, False) else (py_join [CHR 0x0A, CHR 0x0A] sols, True))
       \<and> final_answer_preview_chars (logs res)
           = Some (take 120 (if text_denied re None (py_join [CHR 0x0A, CHR 0x0A] (solutions res))
                             then REDACTED else py_join [CHR 0x0A, CHR 0x0A] (solutions res)))
       \<and> success res
           = (\<not> text_denied re None (py_join [CHR 0x0A, CHR 0x0A] (solutions res))
              \<and> solutions res \<noteq> [])"
proof -
  from automated_decompose_returns[OF assms]
  obtain proposed c w2 lg w3 s where
    d: "dispatch_all re (res_subtasks res)
          \<lparr> ds_solutions = [], ds_logs = lg, ds_strong = strong, ds_world = w3 \<rparr> = (None, s)"
    and sol: "solutions res = ds_solutions s"
    and suc: "success res = (snd (fst (safe_aggregator re (ds_solutions s) (ds_world s)))
                            \<and> length (res_subtasks res) = length (ds_solutions s)
                            \<and> length (ds_solutions s) > 0)"
    and lg: "logs res = (ds_logs s)\<lparr>final_answer_preview_chars :=
                          Some (take 120 (fst (fst (safe_aggregator re (ds_solutions s) (ds_world s)))))\<rparr>"
    by blast
  from dispatch_all_None[OF d] sol
  have len: "length (solutions res) = length (res_subtasks res)" by simp
  have a: "fst (safe_aggregator re sols w0)
           = (if text_denied re None (py_join [CHR 0x0A, CHR 0x0A] sols)
              then (REDACTED, False) else (py_join [CHR 0x0A, CHR 0x0A] sols, True))"
    by (simp add: safe_aggregator_eq)
  have b: "final_answer_preview_chars (logs res)
           = Some (take 120 (if text_denied re None (py_join [CHR 0x0A, CHR 0x0A] (solutions res))
                             then REDACTED else py_join [CHR 0x0A, CHR 0x0A] (solutions res)))"
    using lg sol by (simp add: safe_aggregator_eq)
  have c: "success res
           = (\<not> text_denied re None (py_join [CHR 0x0A, CHR 0x0A] (solutions res))
              \<and> solutions res \<noteq> [])"
    using suc sol len by (auto simp add: safe_aggregator_eq)
  from a b c show ?thesis by blast
qed


theorem success_iff_aggregated_and_solved_witness:
  "(case fst (automated_decompose default_re_search ''Plan'' (live_client ''Weak'' (Some one_bullet))
               (mock_client ''Strong'') quiet_world) of
      Inr res \<Rightarrow> success res
                 \<and> snd (fst (safe_aggregator default_re_search (solutions res) quiet_world))
                 \<and> length (solutions res) = length (res_subtasks res)
    | Inl e \<Rightarrow> False)
   \<and> (case fst (automated_decompose default_re_search ''Plan'' (live_client ''Weak'' (Some no_bullets))
               (mock_client ''Strong'') quiet_world) of
      Inr res \<Rightarrow> \<not> success res \<and> res_subtasks res = []
                 \<and> snd (fst (safe_aggregator default_re_search (solutions res) quiet_world))
    | Inl e \<Rightarrow> False)"
proof -
  let ?run1 = "automated_decompose default_re_search ''Plan'' (live_client ''Weak'' (Some one_bullet))
               (mock_client ''Strong'') quiet_world"
  let ?run2 = "automated_decompose default_re_search ''Plan'' (live_client ''Weak'' (Some no_bullets))
               (mock_client ''Strong'') quiet_world"
  obtain res1 where f1: "fst ?run1 = Inr res1" and s1: "success res1"
    using small_run_result by simp
  obtain res2 where f2: "fst ?run2 = Inr res2" and s2: "res_subtasks res2 = []" "solutions res2 = []"
    using empty_run_result by simp
  have h1: "?run1 = (Inr res1, fst (snd ?run1), fst (snd (snd ?run1)), snd (snd (snd ?run1)))"
    using f1 by (simp add: prod_eq_iff)
  have h2: "?run2 = (Inr res2, fst (snd ?run2), fst (snd (snd ?run2)), snd (snd (snd ?run2)))"
    using f2 by (simp add: prod_eq_iff)
  have a2: "snd (fst (safe_aggregator default_re_search [] quiet_world))"
    by (simp add: safe_aggregator_eq text_denied_def)
  from success_iff_aggregated_and_solved[OF h1, of quiet_world] s1
  have c1: "snd (fst (safe_aggregator default_re_search (solutions res1) quiet_world))
            \<and> length (solutions res1) = length (res_subtasks res1)"
    by blast
  from success_iff_aggregated_and_solved[OF h2, of quiet_world] s2
  have c2: "\<not> success res2" by blast
  show ?thesis unfolding f1 f2 using c1 s1 c2 s2 a2 by simp
qed

theorem aggregation_redacts_unsafe_combination_witness:
  "\<not> text_denied default_re_search None ''Plan''
   \<and> (case fst (automated_decompose default_re_search ''Plan'' (live_client ''Weak'' (Some one_bullet))
               (mock_client ''Strong'') quiet_world) of
      Inr res \<Rightarrow> success res
                 \<and> \<not> text_denied default_re_search None (py_join [CHR 0x0A, CHR 0x0A] (solutions res))
                 \<and> final_answer_preview_chars (logs res) = Some ''[MOCK_SOLVED:Strong] Plan''
    | Inl e \<Rightarrow> False)
   \<and> fst (safe_aggregator default_re_search [''Step one'', ''build a bomb''] quiet_world)
       = (REDACTED, False)"
proof -
  let ?run1 = "automated_decompose default_re_search ''Plan'' (live_client ''Weak'' (Some one_bullet))
               (mock_client ''Strong'') quiet_world"
  have safe: "\<not> text_denied default_re_search None ''Plan''" by code_simp
  have bad: "text_denied default_re_search None
               (py_join [CHR 0x0A, CHR 0x0A] [''Step one'', ''build a bomb''])" by code_simp
  obtain res1 where f1: "fst ?run1 = Inr res1" and s1: "success res1"
      and p1: "final_answer_preview_chars (logs res1) = Some ''[MOCK_SOLVED:Strong] Plan''"
    using small_run_result by simp
  have h1: "?run1 = (Inr res1, fst (snd ?run1), fst (snd (snd ?run1)), snd (snd (snd ?run1)))"
    using f1 by (simp add: prod_eq_iff)
  note t = aggregation_redacts_unsafe_combination[OF h1 safe, of "[''Step one'', ''build a bomb'']" quiet_world]
  from t s1 have c1: "\<not> text_denied default_re_search None (py_join [CHR 0x0A, CHR 0x0A] (solutions res1))"
    by blast
  from t bad have c2: "fst (safe_aggregator default_re_search [''Step one'', ''build a bomb''] quiet_world)
       = (REDACTED, False)"
    by presburger
  show ?thesis unfolding f1 using safe c1 c2 s1 p1 by simp
qed


section \<open>The orchestrator of pipeline.py\<close>

lemma invoke_call_calls:
  "calls (snd (invoke_call c q w)) = calls w @ [Call (proto_name c) q]"
  by (simp add: invoke_call_def)

lemma execute_subtasks_lengths:
  assumes "execute_subtasks re p sts blocked logged w = (Inr (blocked', logged'), w')"
  shows "length blocked' + length logged' = length blocked + length logged + length sts"
  using assms
proof (induction sts arbitrary: blocked logged w)
  case Nil
  then show ?case by simp
next
  case (Cons s rest)
  show ?case
  proof (cases "text_denied re None s")
    case True
    with Cons.prems
    have "execute_subtasks re p rest (blocked @ [s]) logged (snd (is_safe_text re None [] s w))
            = (Inr (blocked', logged'), w')"
      by (simp add: safe_text_ok_eq)
    from Cons.IH[OF this] show ?thesis by simp
  next
    case False
    let ?marker = "''[output blocked for subtask: '' @ take 60 s @ '']''"
    obtain r w2 where c: "invoke_call (pl_model_a p) s w = (r, w2)"
      by (cases "invoke_call (pl_model_a p) s w")
    show ?thesis
    proof (cases r)
      case (Inl e)
      show ?thesis
      proof (cases e)
        case (SafeContentError rs)
        with Cons.prems False c Inl
        have "execute_subtasks re p rest (blocked @ [?marker]) logged w2 = (Inr (blocked', logged'), w')"
          by (simp add: safe_text_ok_eq is_safe_text_eq)
        from Cons.IH[OF this] show ?thesis by simp
      qed (use Cons.prems False c Inl in \<open>simp_all add: safe_text_ok_eq is_safe_text_eq\<close>)
    next
      case (Inr raw_out)
      show ?thesis
      proof (cases "text_denied re None raw_out")
        case True
        with Cons.prems False c Inr
        have "execute_subtasks re p rest (blocked @ [?marker]) logged
                (snd (is_safe_text re None ''pipeline:model_a_output'' raw_out w2))
                = (Inr (blocked', logged'), w')"
          by (simp add: safe_text_ok_eq is_safe_text_eq)
        from Cons.IH[OF this] show ?thesis by simp
      next
        case nd: False
        with Cons.prems False c Inr
        have "execute_subtasks re p rest blocked
                (logged @ [\<lparr> subtask = s, st_output = raw_out, redacted = False,
                              prompt_tokens = estimate_tokens s,
                              completion_tokens = estimate_tokens raw_out \<rparr>]) w2
                = (Inr (blocked', logged'), w')"
          by (simp add: safe_text_ok_eq is_safe_text_eq)
        from Cons.IH[OF this] show ?thesis by simp
      qed
    qed
  qed
qed

lemma run_pipeline_blocked:
  assumes "text_denied re None (pl_prompt p)"
  shows "run_pipeline re p strat (Some logger) w =
           (let w1 = snd (safe_text_ok re None (pl_prompt p) w);
                run = blocked_run p strat w1
            in if write_ok w (logger_path logger)
               then (Inr run, w1\<lparr>files := (files w1)(logger_path logger :=
                                   files w1 (logger_path logger) @ [RunLogLine run])\<rparr>)
               else (Inl OSError, w1))"
  using assms
  by (simp add: run_pipeline_def safe_text_ok_eq log_run_def Let_def is_safe_text_fields)

lemma run_pipeline_default_logger:
  "run_pipeline re p strat None w =
     (if mkdir_ok w ''logs/experiment_runs.jsonl''
      then run_pipeline re p strat (Some \<lparr> logger_path = ''logs/experiment_runs.jsonl'' \<rparr>) w
      else (Inl OSError, w))"
  by (simp add: run_pipeline_def JsonlLogger_init_def)

lemma manual_run_result:
  "fst (run_pipeline default_re_search (stub_pipeline ''Plan'' (Some [''a'', ''hack it'', ''b'']))
          ''manual'' None quiet_world)
     = Inr \<lparr> run_id = ''00000000-0000-4000-8000-000000000000'',
             timestamp = ''2025-01-01T00:00:00+00:00'', strategy = ''manual'',
             model_a = ''ModelA'', model_b = ''ModelB'', prompt = ''Plan'',
             blocked_subtasks = [''hack it''],
             subtasks =
               [\<lparr> subtask = ''a'', st_output = ''Processed safely by ModelA: a'',
                   redacted = False, prompt_tokens = 1, completion_tokens = 7 \<rparr>,
                \<lparr> subtask = ''b'', st_output = ''Processed safely by ModelA: b'',
                   redacted = False, prompt_tokens = 1, completion_tokens = 7 \<rparr>] \<rparr>"
  by code_simp

text \<open>
  Runs that return. In a run of \<^verbatim>\<open>run_pipeline\<close> that passes the prompt gate and
  returns its record, the decomposition step returned a list of subtasks and the record's blocked
  entries and solved entries together are as many as these. In a run of
  \<^verbatim>\<open>automated_decompose\<close> that passes the prompt gate and returns, the weak client
  returned a list of proposals; the run's subtasks are the proposals the policy accepts,
  its blocked subtasks are the proposals the policy refuses, and the two together are as
  many as the proposals.
\<close>

lemma returning_run_accounts_for_proposals:
  assumes "run_pipeline re p strat logger_opt w = (Inr run, w')"
      and "\<not> text_denied re None (pl_prompt p)"
      and "automated_decompose re task weak strong v = (Inr res, weak', strong', v')"
      and "\<not> text_denied re None task"
  shows "(\<exists>proposed w2. decompose_step re p strat w = (Inr proposed, w2)
            \<and> length (blocked_subtasks run) + length (subtasks run) = length proposed)
       \<and> (\<exists>proposed c v2. propose_subtasks re weak task 6 v = (Inr proposed, c, v2)
            \<and> length (log_blocked_subtasks (logs res)) + length (res_subtasks res) = length proposed
            \<and> res_subtasks res = filter (\<lambda>s. \<not> text_denied re None s) proposed
            \<and> log_blocked_subtasks (logs res) = filter (text_denied re None) proposed)"
proof
  from assms(2) have ok: "safe_text_ok re None (pl_prompt p) w = (True, w)"
    by (simp add: safe_text_ok_eq is_safe_text_eq)
  obtain logger where lg: "(case logger_opt of
              None \<Rightarrow> JsonlLogger_init ''logs/experiment_runs.jsonl'' w
            | Some l \<Rightarrow> Inr l) = Inr logger"
    using assms(1) by (cases "(case logger_opt of
              None \<Rightarrow> JsonlLogger_init ''logs/experiment_runs.jsonl'' w
            | Some l \<Rightarrow> Inr l)") (simp_all add: run_pipeline_def)
  obtain r w2 where d: "decompose_step re p strat w = (r, w2)"
    by (cases "decompose_step re p strat w")
  show "\<exists>proposed w2. decompose_step re p strat w = (Inr proposed, w2)
            \<and> length (blocked_subtasks run) + length (subtasks run) = length proposed"
  proof (cases r)
    case (Inl e)
    with assms(1) ok lg d show ?thesis by (simp add: run_pipeline_def)
  next
    case (Inr proposed)
    obtain x w3 where e: "execute_subtasks re p proposed [] [] w2 = (x, w3)"
      by (cases "execute_subtasks re p proposed [] [] w2")
    show ?thesis
    proof (cases x)
      case (Inl err)
      with assms(1) ok lg d Inr e show ?thesis by (simp add: run_pipeline_def)
    next
      case inr: (Inr bl)
      obtain blocked logged where bl: "bl = (blocked, logged)" by (cases bl)
      from e inr bl have e': "execute_subtasks re p proposed [] [] w2 = (Inr (blocked, logged), w3)"
        by simp
      from assms(1) ok lg d Inr e'
      have "blocked_subtasks run = blocked \<and> subtasks run = logged"
        by (auto simp add: run_pipeline_def log_run_def Let_def split: if_splits)
      with execute_subtasks_lengths[OF e'] d Inr show ?thesis by simp
    qed
  qed
next
  from automated_decompose_returns[OF assms(3,4)]
  obtain proposed c w2 lg w3 s where
    p: "propose_subtasks re weak task 6 v = (Inr proposed, c, w2)"
    and g: "gate_subtasks re proposed [] (initial_logs\<lparr>latency_weak := [last_latency_sec c]\<rparr>) w2
             = (res_subtasks res, lg, w3)"
    and d: "dispatch_all re (res_subtasks res)
             \<lparr> ds_solutions = [], ds_logs = lg, ds_strong = strong, ds_world = w3 \<rparr> = (None, s)"
    and l: "logs res = (ds_logs s)\<lparr>final_answer_preview_chars :=
                          Some (take 120 (fst (fst (safe_aggregator re (ds_solutions s) (ds_world s)))))\<rparr>"
    by blast
  from g gate_subtasks_safe[of re proposed "[]" "initial_logs\<lparr>latency_weak := [last_latency_sec c]\<rparr>" w2]
  have a: "res_subtasks res = filter (\<lambda>s. \<not> text_denied re None s) proposed" by simp
  from g gate_subtasks_blocked[of re proposed "[]" "initial_logs\<lparr>latency_weak := [last_latency_sec c]\<rparr>" w2]
  have "log_blocked_subtasks lg = filter (text_denied re None) proposed"
    by (simp add: initial_logs_def)
  with dispatch_all_None[OF d] l
  have b: "log_blocked_subtasks (logs res) = filter (text_denied re None) proposed" by simp
  have "length (filter (text_denied re None) proposed)
          + length (filter (\<lambda>s. \<not> text_denied re None s) proposed) = length proposed"
    by (rule sum_length_filter_compl)
  with a b p
  show "\<exists>proposed c v2. propose_subtasks re weak task 6 v = (Inr proposed, c, v2)
            \<and> length (log_blocked_subtasks (logs res)) + length (res_subtasks res) = length proposed
            \<and> res_subtasks res = filter (\<lambda>s. \<not> text_denied re None s) proposed
            \<and> log_blocked_subtasks (logs res) = filter (text_denied re None) proposed"
    by auto
qed

lemma small_proposal_result:
  "fst (propose_subtasks default_re_search (live_client ''Weak'' (Some one_bullet)) ''Plan'' 6 quiet_world)
     = Inr [''Plan'']"
  by code_simp

lemma Plan_is_safe: "\<not> text_denied default_re_search None ''Plan''"
  by code_simp

lemma manual_run_accounts_for_proposals:
  "\<not> text_denied default_re_search None ''Plan''
   \<and> (case fst (run_pipeline default_re_search (stub_pipeline ''Plan'' (Some [''a'', ''hack it'', ''b'']))
                 ''manual'' None quiet_world) of
        Inr run \<Rightarrow> blocked_subtasks run = [''hack it'']
                   \<and> map subtask (subtasks run) = [''a'', ''b'']
                   \<and> length (blocked_subtasks run) + length (subtasks run)
                       = length (manual_decompose (stub_pipeline ''Plan'' (Some [''a'', ''hack it'', ''b''])))
      | Inl e \<Rightarrow> False)
   \<and> (case fst (automated_decompose default_re_search ''Plan'' (live_client ''Weak'' (Some one_bullet))
                 (mock_client ''Strong'') quiet_world) of
        Inr res \<Rightarrow> length (log_blocked_subtasks (logs res)) + length (res_subtasks res) = 1
      | Inl e \<Rightarrow> False)"
proof -
  let ?p = "stub_pipeline ''Plan'' (Some [''a'', ''hack it'', ''b''])"
  let ?run = "run_pipeline default_re_search ?p ''manual'' None quiet_world"
  let ?dec = "automated_decompose default_re_search ''Plan'' (live_client ''Weak'' (Some one_bullet))
                 (mock_client ''Strong'') quiet_world"
  let ?proposal = "propose_subtasks default_re_search (live_client ''Weak'' (Some one_bullet)) ''Plan'' 6 quiet_world"
  obtain run where f1: "fst ?run = Inr run" and b1: "blocked_subtasks run = [''hack it'']"
      and m1: "map subtask (subtasks run) = [''a'', ''b'']"
    using manual_run_result by simp
  obtain res where f2: "fst ?dec = Inr res"
    using small_run_result by simp
  have h1: "?run = (Inr run, snd ?run)" using f1 by (simp add: prod_eq_iff)
  have h2: "pl_prompt ?p = ''Plan''" by (simp add: stub_pipeline_def)
  have h2': "\<not> text_denied default_re_search None (pl_prompt ?p)"
    unfolding h2 by (rule Plan_is_safe)
  have h3: "?dec = (Inr res, fst (snd ?dec), fst (snd (snd ?dec)), snd (snd (snd ?dec)))"
    using f2 by (simp add: prod_eq_iff)
  note t = returning_run_accounts_for_proposals[OF h1 h2' h3 Plan_is_safe]
  from t obtain proposed w2 where
    d: "decompose_step default_re_search ?p ''manual'' quiet_world = (Inr proposed, w2)"
    and l: "length (blocked_subtasks run) + length (subtasks run) = length proposed"
    by blast
  from d have "proposed = manual_decompose ?p" by (simp add: decompose_step_def)
  with l have c1: "length (blocked_subtasks run) + length (subtasks run) = length (manual_decompose ?p)"
    by simp
  from t obtain proposed' c v2 where
    p: "?proposal = (Inr proposed', c, v2)"
    and l': "length (log_blocked_subtasks (logs res)) + length (res_subtasks res) = length proposed'"
    by blast
  from p small_proposal_result have "proposed' = [''Plan'']" by simp
  with l' have c2: "length (log_blocked_subtasks (logs res)) + length (res_subtasks res) = 1"
    by simp
  show ?thesis unfolding f1 f2 using Plan_is_safe b1 m1 c1 c2 by simp
qed

text \<open>
  The comprehension of the pipeline's \<^verbatim>\<open>automated_decompose\<close> filters nothing: when it
  returns, it returns the list it was given, and the environment as it was.
\<close>

lemma keep_safe_returns_its_input:
  assumes "keep_safe re xs w = (Inr kept, w')"
  shows "kept = xs \<and> w' = w"
  using assms
proof (induction xs arbitrary: kept)
  case Nil
  then show ?case by simp
next
  case (Cons s rest)
  show ?case
  proof (cases "text_denied re None s")
    case True
    with Cons.prems show ?thesis by (simp add: is_safe_text_eq)
  next
    case False
    obtain r w2 where k: "keep_safe re rest w = (r, w2)"
      by (cases "keep_safe re rest w")
    show ?thesis
    proof (cases r)
      case (Inl e)
      with Cons.prems False k show ?thesis by (simp add: is_safe_text_eq)
    next
      case (Inr kept')
      with Cons.prems False k have "kept = s # kept'" and "w' = w2"
        by (simp_all add: is_safe_text_eq)
      with Cons.IH[of kept'] k Inr show ?thesis by simp
    qed
  qed
qed

text \<open>
  Claim C6, evaluated. The prompt "Plan" passes the gate and the proposing client
  suggests three subtasks, "ok", "hack it" and "fine". The run makes this one call and
  then raises \<open>SafeContentError\<close> from the comprehension that was to filter the
  suggestions: it returns no record and writes none, so no proposed subtask is in the
  subtasks or in the blocked subtasks of any record.
\<close>

theorem refused_proposal_leaves_no_record:
  "\<not> text_denied default_re_search None ''Plan''
   \<and> (case run_pipeline default_re_search (suggesting_pipeline ''Plan'') ''automated'' None quiet_world of
        (r, w') \<Rightarrow> (r, files w' ''logs/experiment_runs.jsonl'', length (calls w')))
       = (Inl (SafeContentError [''blocklist:hack'']), [], 1)
   \<and> parse_suggestions_to_subtasks (''- ok'' @ [CHR 0x0A] @ ''- hack it'' @ [CHR 0x0A] @ ''- fine'')
       = [''ok'', ''hack it'', ''fine'']"
  by code_simp

section \<open>The prompt gate\<close>

text \<open>
  Claim C7. When the policy refuses the top-level prompt, \<^verbatim>\<open>automated_decompose\<close>
  returns at once with success false, no subtasks and no solutions, both clients as they
  were, and a trace of client invocations that has not grown: neither
  \<^verbatim>\<open>propose_subtasks\<close>, \<^verbatim>\<open>solve_subtask\<close> nor \<^verbatim>\<open>generate\<close> was invoked.
  \<^verbatim>\<open>run_pipeline\<close> leaves the trace as it was too: no \<^verbatim>\<open>call\<close> was made; it returns
  the record of a blocked run, or fails to write it.
\<close>

theorem unsafe_prompt_invokes_no_client:
  assumes "text_denied re None (pl_prompt p)"
  shows "automated_decompose re (pl_prompt p) weak strong w
           = (Inr \<lparr> res_subtasks = [], solutions = [], success = False,
                    logs = initial_logs\<lparr>log_blocked := Some True\<rparr> \<rparr>,
              weak, strong, snd (safe_text_ok re None (pl_prompt p) w))
       \<and> calls (snd (safe_text_ok re None (pl_prompt p) w)) = calls w
       \<and> calls (snd (run_pipeline re p strat logger_opt w)) = calls w
       \<and> (fst (run_pipeline re p strat logger_opt w) = Inl OSError
          \<or> fst (run_pipeline re p strat logger_opt w)
              = Inr (blocked_run p strat (snd (safe_text_ok re None (pl_prompt p) w))))"
proof -
  have a: "calls (snd (run_pipeline re p strat (Some l) w)) = calls w
           \<and> (fst (run_pipeline re p strat (Some l) w) = Inl OSError
              \<or> fst (run_pipeline re p strat (Some l) w)
                  = Inr (blocked_run p strat (snd (safe_text_ok re None (pl_prompt p) w))))" for l
    by (simp add: run_pipeline_blocked[OF assms] Let_def safe_text_ok_fields)
  have b: "calls (snd (run_pipeline re p strat logger_opt w)) = calls w
           \<and> (fst (run_pipeline re p strat logger_opt w) = Inl OSError
              \<or> fst (run_pipeline re p strat logger_opt w)
                  = Inr (blocked_run p strat (snd (safe_text_ok re None (pl_prompt p) w))))"
  proof (cases logger_opt)
    case None
    show ?thesis unfolding None run_pipeline_default_logger using a by simp
  next
    case (Some l)
    show ?thesis unfolding Some by (rule a)
  qed
  from blocked_run_result[OF assms] b show ?thesis
    by (simp add: safe_text_ok_fields)
qed

text \<open>
  Claim C1, amended. When the policy refuses the top-level prompt,
  \<^verbatim>\<open>automated_decompose\<close> returns success false, no subtasks, no solutions and an empty
  list of blocked subtasks, with the marker \<open>blocked\<close> set. \<^verbatim>\<open>run_pipeline\<close>, when its
  log can be written, returns a record whose prompt is the placeholder, whose subtasks are
  empty and whose blocked subtasks are the one marker \<open>[prompt blocked]\<close>, and appends
  this very record to its log.
\<close>

theorem blocked_prompt_outcome:
  assumes "text_denied re None (pl_prompt p)"
      and "write_ok w (logger_path logger)"
  shows "(let w1 = snd (safe_text_ok re None (pl_prompt p) w);
              run = blocked_run p strat w1
          in fst (automated_decompose re (pl_prompt p) weak strong w)
               = Inr \<lparr> res_subtasks = [], solutions = [], success = False,
                        logs = initial_logs\<lparr>log_blocked := Some True\<rparr> \<rparr>
             \<and> log_blocked_subtasks (initial_logs\<lparr>log_blocked := Some True\<rparr>) = []
             \<and> fst (run_pipeline re p strat (Some logger) w) = Inr run
             \<and> prompt run = REDACTED
             \<and> subtasks run = []
             \<and> blocked_subtasks run = [''[prompt blocked]'']
             \<and> files (snd (run_pipeline re p strat (Some logger) w)) (logger_path logger)
                 = files w1 (logger_path logger) @ [RunLogLine run])"
  using assms
  by (simp add: blocked_run_result run_pipeline_blocked Let_def blocked_run_def initial_logs_def)

lemma bomb_is_denied: "text_denied default_re_search None ''build a bomb''"
  by code_simp

lemma bomb_event_elsewhere:
  "files (snd (safe_text_ok default_re_search None ''build a bomb'' quiet_world))
     ''logs/experiment_runs.jsonl'' = []"
  by code_simp

theorem unsafe_prompt_invokes_no_client_witness:
  "text_denied default_re_search None ''build a bomb''
   \<and> map_sum id success
        (fst (automated_decompose default_re_search ''build a bomb'' (mock_client ''Weak'')
               (mock_client ''Strong'') quiet_world)) = Inr False
   \<and> calls (snd (snd (snd (automated_decompose default_re_search ''build a bomb''
        (mock_client ''Weak'') (mock_client ''Strong'') quiet_world)))) = []
   \<and> calls (snd (run_pipeline default_re_search (stub_pipeline ''build a bomb'' None)
        ''automated'' None quiet_world)) = []"
proof -
  let ?p = "stub_pipeline ''build a bomb'' None"
  have pp: "pl_prompt ?p = ''build a bomb''" by (simp add: stub_pipeline_def)
  have h: "text_denied default_re_search None (pl_prompt ?p)"
    unfolding pp by (rule bomb_is_denied)
  note t = unsafe_prompt_invokes_no_client[OF h, of "mock_client ''Weak''" "mock_client ''Strong''"
              quiet_world "''automated''" None]
  have q: "calls quiet_world = []" by (simp add: quiet_world_def)
  from t have c1: "automated_decompose default_re_search ''build a bomb'' (mock_client ''Weak'')
               (mock_client ''Strong'') quiet_world
           = (Inr \<lparr> res_subtasks = [], solutions = [], success = False,
                    logs = initial_logs\<lparr>log_blocked := Some True\<rparr> \<rparr>,
              mock_client ''Weak'', mock_client ''Strong'',
              snd (safe_text_ok default_re_search None ''build a bomb'' quiet_world))"
    unfolding pp by blast
  from t have c2: "calls (snd (safe_text_ok default_re_search None ''build a bomb'' quiet_world)) = []"
    unfolding pp q by blast
  from t have c3: "calls (snd (run_pipeline default_re_search ?p ''automated'' None quiet_world)) = []"
    unfolding q by blast
  show ?thesis unfolding c1 using bomb_is_denied c2 c3 by simp
qed

theorem blocked_prompt_outcome_witness:
  "text_denied default_re_search None ''build a bomb''
   \<and> map_sum id prompt
        (fst (run_pipeline default_re_search (stub_pipeline ''build a bomb'' None) ''automated''
               (Some \<lparr> logger_path = ''logs/experiment_runs.jsonl'' \<rparr>) quiet_world))
       = Inr ''[REDACTED for safety]''
   \<and> map (\<lambda>l. case l of RunLogLine r \<Rightarrow> (prompt r, blocked_subtasks r, length (subtasks r))
                      | SafetyEventLine e \<Rightarrow> ([], [], 0))
        (files (snd (run_pipeline default_re_search (stub_pipeline ''build a bomb'' None) ''automated''
               (Some \<lparr> logger_path = ''logs/experiment_runs.jsonl'' \<rparr>) quiet_world))
           ''logs/experiment_runs.jsonl'')
       = [(''[REDACTED for safety]'', [''[prompt blocked]''], 0)]
   \<and> map_sum id success
        (fst (automated_decompose default_re_search ''build a bomb'' (mock_client ''Weak'')
               (mock_client ''Strong'') quiet_world)) = Inr False"
proof -
  let ?p = "stub_pipeline ''build a bomb'' None"
  let ?lg = "\<lparr> logger_path = ''logs/experiment_runs.jsonl'' \<rparr>"
  have pp: "pl_prompt ?p = ''build a bomb''" by (simp add: stub_pipeline_def)
  have h: "text_denied default_re_search None (pl_prompt ?p)"
    unfolding pp by (rule bomb_is_denied)
  have wr: "write_ok quiet_world (logger_path ?lg)" by (simp add: quiet_world_def)
  note t = blocked_prompt_outcome[OF h wr, of "''automated''" "mock_client ''Weak''" "mock_client ''Strong''"]
  from t have c0: "fst (automated_decompose default_re_search ''build a bomb'' (mock_client ''Weak'')
               (mock_client ''Strong'') quiet_world)
           = Inr \<lparr> res_subtasks = [], solutions = [], success = False,
                    logs = initial_logs\<lparr>log_blocked := Some True\<rparr> \<rparr>"
    unfolding pp Let_def by blast
  from t have c1: "fst (run_pipeline default_re_search ?p ''automated'' (Some ?lg) quiet_world)
           = Inr (blocked_run ?p ''automated'' (snd (safe_text_ok default_re_search None ''build a bomb'' quiet_world)))"
    unfolding pp Let_def by blast
  from t have c2: "files (snd (run_pipeline default_re_search ?p ''automated'' (Some ?lg) quiet_world))
             ''logs/experiment_runs.jsonl''
           = files (snd (safe_text_ok default_re_search None ''build a bomb'' quiet_world))
               ''logs/experiment_runs.jsonl''
             @ [RunLogLine (blocked_run ?p ''automated''
                  (snd (safe_text_ok default_re_search None ''build a bomb'' quiet_world)))]"
    unfolding pp Let_def by simp
  show ?thesis unfolding c0 c1 c2 bomb_event_elsewhere
    using bomb_is_denied by (simp add: blocked_run_def REDACTED_def)
qed

text \<open>
  Claim C1 as stated fails on \<^verbatim>\<open>run_pipeline\<close>: for the prompt "build a bomb" the
  record it returns has the one-element list \<open>[prompt blocked]\<close> as blocked subtasks, not
  the empty list.
\<close>

theorem blocked_prompt_record_counterexample:
  "text_denied default_re_search None ''build a bomb''
   \<and> map_sum id blocked_subtasks
        (fst (run_pipeline default_re_search (stub_pipeline ''build a bomb'' None) ''automated''
               None quiet_world)) = Inr [''[prompt blocked]'']
   \<and> map_sum id blocked_subtasks
        (fst (run_pipeline default_re_search (stub_pipeline ''build a bomb'' None) ''automated''
               None quiet_world)) \<noteq> Inr []"
  by code_simp

section \<open>The moderation helper\<close>








end
